theory Spec2Isabelle
  imports Complex_Main "HOL-Library.Word" "HOL-Library.Sublist"
begin

unbundle bit_operations_syntax

section \<open>Frame layer: \<^verbatim>\<open>clients/pjon.py\<close>\<close>

text \<open>
  Python integers are unbounded, so the list a caller hands to \<^verbatim>\<open>send_packet\<close> is an
  \<open>int list\<close>. A value of Python's \<^verbatim>\<open>bytes\<close> type holds octets only, so it is a list of
  8-bit words. Wall-clock readings (\<^verbatim>\<open>time.time()\<close>) are taken as exact reals.
\<close>

type_synonym bytes = "8 word list"

datatype py_error =
    IndexError
  | ValueError
  | PJON_Connection_Lost
  | PJON_Packets_Buffer_Full
  | PJON_Content_Too_Long

subsection \<open>Python list and bytes primitives\<close>

text \<open>\<^verbatim>\<open>bytes(payload)\<close>: raises ValueError unless every element is in \<^verbatim>\<open>range(256)\<close>.\<close>

definition to_bytes :: "int list \<Rightarrow> py_error + bytes" where
  "to_bytes xs =
     (if list_all (\<lambda>x. 0 \<le> x \<and> x < 256) xs then Inr (map word_of_int xs) else Inl ValueError)"

text \<open>\<^verbatim>\<open>xs[i]\<close>: a negative index counts from the end; out of range raises IndexError.\<close>

definition py_get :: "'a list \<Rightarrow> int \<Rightarrow> py_error + 'a" where
  "py_get xs i =
     (if 0 \<le> i \<and> i < int (length xs) then Inr (xs ! nat i)
      else if i < 0 \<and> 0 \<le> int (length xs) + i then Inr (xs ! nat (int (length xs) + i))
      else Inl IndexError)"

text \<open>\<^verbatim>\<open>xs[0:stop]\<close>: a negative stop counts from the end; the slice never raises.\<close>

definition py_slice0 :: "'a list \<Rightarrow> int \<Rightarrow> 'a list" where
  "py_slice0 xs stop = (if stop < 0 then take (nat (int (length xs) + stop)) xs else take (nat stop) xs)"

subsection \<open>Constants of the absent \<^verbatim>\<open>types\<close> module\<close>

text \<open>Modelled from the spec: \<^verbatim>\<open>PacketContent.TERMINATOR\<close> of the absent \<^verbatim>\<open>types\<close> module;
  the spec gives the frame terminator as \<^verbatim>\<open>0x24\<close>.\<close>

definition TERMINATOR :: int where
  "TERMINATOR = 0x24"

text \<open>Modelled from the spec: \<^verbatim>\<open>ProtocolVersion\<close> of the absent \<^verbatim>\<open>types\<close> module; the spec
  gives \<^verbatim>\<open>0x01\<close> (V1) as the only defined value.\<close>

definition ProtocolVersion_V1 :: int where
  "ProtocolVersion_V1 = 0x01"

definition ProtocolVersion_has_value :: "int \<Rightarrow> bool" where
  "ProtocolVersion_has_value v = (v = ProtocolVersion_V1)"

subsection \<open>\<^verbatim>\<open>PjonClient.__crc16\<close>\<close>

text \<open>The inner loop \<^verbatim>\<open>for _ in range(0, 8)\<close>, on Python's unbounded integers.\<close>

fun crc16_bits :: "nat \<Rightarrow> int \<Rightarrow> int \<Rightarrow> int \<Rightarrow> int" where
  "crc16_bits 0 poly crc cur_byte = crc"
| "crc16_bits (Suc n) poly crc cur_byte =
     (if ((crc AND 0x0001) XOR (cur_byte AND 0x0001)) \<noteq> 0
      then crc16_bits n poly ((drop_bit 1 crc) XOR poly) (drop_bit 1 cur_byte)
      else crc16_bits n poly (drop_bit 1 crc) (drop_bit 1 cur_byte))"

text \<open>The outer loop \<^verbatim>\<open>for byte in data\<close>.\<close>

fun crc16_bytes :: "int \<Rightarrow> int \<Rightarrow> bytes \<Rightarrow> int" where
  "crc16_bytes poly crc [] = crc"
| "crc16_bytes poly crc (byte # data) =
     crc16_bytes poly (crc16_bits 8 poly crc (0xFF AND uint byte)) data"

definition crc16_poly :: "bytes \<Rightarrow> int \<Rightarrow> int" where
  "crc16_poly calculate_data poly =
     (let crc = crc16_bytes poly 0xFFFF calculate_data;
          crc = (NOT crc) AND 0xFFFF;
          crc = (push_bit 8 crc) OR ((drop_bit 8 crc) AND 0xFF)
      in crc AND 0xFFFF)"

text \<open>The default argument \<^verbatim>\<open>poly = 0x8408\<close>; no caller passes another.\<close>

definition crc16 :: "bytes \<Rightarrow> int" where
  "crc16 calculate_data = crc16_poly calculate_data 0x8408"

subsection \<open>The serial link (the external \<^verbatim>\<open>pjon_cython\<close> driver)\<close>

text \<open>
  What one call of \<^verbatim>\<open>send_packet\<close> observes of the driver and of the clock:
  \<open>link_send\<close> is \<^verbatim>\<open>self.send(address, data)\<close>, which returns a status or raises;
  \<open>link_clock n\<close> is the \<open>n\<close>-th reading of \<^verbatim>\<open>time.time()\<close> inside the call;
  \<open>link_loop n\<close> is the \<open>n\<close>-th \<^verbatim>\<open>self.loop()\<close> poll inside the call, a pair
  (receive status, send status) or an exception; \<open>PJON_ACK\<close> and \<open>PJON_BROADCAST\<close> are
  the driver's constants.
\<close>

record link =
  link_send :: "int \<Rightarrow> bytes \<Rightarrow> py_error + int"
  link_clock :: "nat \<Rightarrow> real"
  link_loop :: "nat \<Rightarrow> py_error + (int \<times> int)"
  PJON_ACK :: int
  PJON_BROADCAST :: int

subsection \<open>\<^verbatim>\<open>PjonClient.send_packet\<close>\<close>

text \<open>
  The ack-wait loop \<^verbatim>\<open>while (time.time() - current_time) <= waiting_time\<close>. Reading 0 of the
  clock is \<^verbatim>\<open>current_time\<close>; the test of iteration \<open>n\<close> takes reading \<open>n + 1\<close> and is followed
  by poll \<open>n\<close>. The loop need not end (a clock that stands still, no ACK): \<open>None\<close> is
  "does not return".
\<close>

partial_function (option) ack_wait :: "link \<Rightarrow> real \<Rightarrow> real \<Rightarrow> nat \<Rightarrow> (py_error + bool) option" where
  "ack_wait lk current_time waiting_time n =
     (if link_clock lk (Suc n) - current_time \<le> waiting_time
      then (case link_loop lk n of
              Inl e \<Rightarrow> Some (Inl e)
            | Inr res \<Rightarrow>
                if snd res = PJON_ACK lk then Some (Inr True)
                else ack_wait lk current_time waiting_time (Suc n))
      else Some (Inr False))"

text \<open>
  The outcome of a call: what it returned (\<open>None\<close>: it never returns; \<open>Inl\<close>: it raised), the
  caller's list object after the call, and the frames handed to \<^verbatim>\<open>self.send\<close>.
\<close>

record send_packet_outcome =
  returned :: "(py_error + bool) option"
  payload_after :: "int list"
  handed_to_link :: "(int \<times> bytes) list"

text \<open>
  \<open>Packet_has_value\<close> is the value set of the enum \<^verbatim>\<open>Packet\<close> of the absent \<^verbatim>\<open>types\<close> module:
  \<^verbatim>\<open>Packet(v)\<close> raises ValueError exactly when \<open>v\<close> is not one of its values. Both branches of
  \<^verbatim>\<open>if address == pjon.PJON_BROADCAST\<close> only log, and both evaluate \<^verbatim>\<open>Packet(payload[1])\<close>
  in their f-string.
\<close>

definition send_packet ::
  "(int \<Rightarrow> bool) \<Rightarrow> link \<Rightarrow> int \<Rightarrow> int list \<Rightarrow> real \<Rightarrow> send_packet_outcome" where
  "send_packet Packet_has_value lk address payload waiting_time =
     (case to_bytes payload of
        Inl e \<Rightarrow> \<lparr>returned = Some (Inl e), payload_after = payload, handed_to_link = []\<rparr>
      | Inr data \<Rightarrow>
          let crc16v = crc16 data;
              payload = payload @ [drop_bit 8 crc16v];
              payload = payload @ [crc16v AND 0xFF];
              payload = payload @ [TERMINATOR]
          in (case to_bytes payload of
                Inl e \<Rightarrow> \<lparr>returned = Some (Inl e), payload_after = payload, handed_to_link = []\<rparr>
              | Inr frame \<Rightarrow>
                  (case link_send lk address frame of
                     Inl e \<Rightarrow> \<lparr>returned = Some (Inl e), payload_after = payload,
                               handed_to_link = [(address, frame)]\<rparr>
                   | Inr _ \<Rightarrow>
                       (case py_get payload 1 of
                          Inl e \<Rightarrow> \<lparr>returned = Some (Inl e), payload_after = payload,
                                    handed_to_link = [(address, frame)]\<rparr>
                        | Inr kind \<Rightarrow>
                            if \<not> Packet_has_value kind
                            then \<lparr>returned = Some (Inl ValueError), payload_after = payload,
                                   handed_to_link = [(address, frame)]\<rparr>
                            else if waiting_time > 0
                            then \<lparr>returned = ack_wait lk (link_clock lk 0) waiting_time 0,
                                   payload_after = payload, handed_to_link = [(address, frame)]\<rparr>
                            else \<lparr>returned = Some (Inr True), payload_after = payload,
                                   handed_to_link = [(address, frame)]\<rparr>))))"


subsection \<open>\<^verbatim>\<open>PjonClient.receive\<close>\<close>

text \<open>
  A call either raises (\<open>Inl\<close>), or logs a warning and returns without calling the receiver
  (\<open>Dropped\<close>), or calls \<^verbatim>\<open>receiver.on_message(payload, length, address, protocol_version)\<close>
  (\<open>Forwarded\<close>).
\<close>

datatype rx = Dropped string | Forwarded "int list" int int int

text \<open>
  \<open>version\<close> is the client's \<^verbatim>\<open>self.version\<close> and \<open>len\<close> the argument \<^verbatim>\<open>length\<close>. \<open>packet_info\<close> is the header dictionary:
  \<^verbatim>\<open>packet_info.get("sender_id")\<close> is \<^verbatim>\<open>None\<close> for a missing key, and \<^verbatim>\<open>int(str(None))\<close>
  raises ValueError, which \<^verbatim>\<open>except KeyError\<close> does not catch.
\<close>

definition receive ::
  "(int \<Rightarrow> bool) \<Rightarrow> int \<Rightarrow> bytes \<Rightarrow> int \<Rightarrow> (string \<rightharpoonup> int) \<Rightarrow> py_error + rx" where
  "receive Packet_has_value version received_payload len packet_info =
     (case packet_info ''sender_id'' of
        None \<Rightarrow> Inl ValueError
      | Some sender_address \<Rightarrow>
     let raw_payload = map uint received_payload in
     (case py_get raw_payload 0 of Inl e \<Rightarrow> Inl e | Inr b0 \<Rightarrow>
      if \<not> ProtocolVersion_has_value b0 then Inr (Dropped ''Received unknown protocol version'')
      else
     (case py_get raw_payload 1 of Inl e \<Rightarrow> Inl e | Inr b1 \<Rightarrow>
      if \<not> Packet_has_value b1 then Inr (Dropped ''Received unknown packet'')
      else
     (case to_bytes (py_slice0 raw_payload (len - 3)) of Inl e \<Rightarrow> Inl e | Inr covered \<Rightarrow>
      let calculated_crc = crc16 covered in
     (case py_get raw_payload (len - 3) of Inl e \<Rightarrow> Inl e | Inr hi \<Rightarrow>
     (case py_get raw_payload (len - 2) of Inl e \<Rightarrow> Inl e | Inr lo \<Rightarrow>
      let in_packet_crc = (push_bit 8 hi) OR lo in
      if calculated_crc \<noteq> in_packet_crc then Inr (Dropped ''Invalid CRC check'')
      else
     (case py_get raw_payload (- 1) of Inl e \<Rightarrow> Inl e | Inr last_byte \<Rightarrow>
      if last_byte \<noteq> TERMINATOR then Inr (Dropped ''Missing packet terminator'')
      else
      let payload = py_slice0 raw_payload (len - 3) in
     (case py_get payload 1 of Inl e \<Rightarrow> Inl e | Inr kind \<Rightarrow>
      if \<not> Packet_has_value kind then Inl ValueError
      else Inr (Forwarded payload (int (length payload)) sender_address version)))))))))"

subsection \<open>The reference CRC-16 of the wire protocol\<close>

text \<open>
  Written from the specification's words, on 16-bit registers: seed \<^verbatim>\<open>0xFFFF\<close>; every input
  byte is processed bit by bit, least significant bit first, with the reflected polynomial
  \<^verbatim>\<open>0x8408\<close>; the result is complemented and its two bytes are swapped.
\<close>

definition ref_crc_bit :: "16 word \<Rightarrow> bool \<Rightarrow> 16 word" where
  "ref_crc_bit reg b = (if bit reg 0 \<noteq> b then drop_bit 1 reg XOR 0x8408 else drop_bit 1 reg)"

definition ref_crc_byte :: "16 word \<Rightarrow> 8 word \<Rightarrow> 16 word" where
  "ref_crc_byte reg byte = foldl (\<lambda>r i. ref_crc_bit r (bit byte i)) reg [0..<8]"

definition ref_swap_bytes :: "16 word \<Rightarrow> 16 word" where
  "ref_swap_bytes w = push_bit 8 w OR drop_bit 8 w"

definition ref_crc16 :: "bytes \<Rightarrow> 16 word" where
  "ref_crc16 data = ref_swap_bytes (NOT (foldl ref_crc_byte 0xFFFF data))"

subsection \<open>Concrete inputs for the examples\<close>

text \<open>Modelled from the spec: the values of the enum \<^verbatim>\<open>Packet\<close> (absent \<^verbatim>\<open>types\<close> module) that
  the spec's table of packet kinds lists by number.\<close>

definition Packet_values_spec :: "int \<Rightarrow> bool" where
  "Packet_values_spec v = (v \<in> {0x01, 0x02, 0x03, 0x04, 0x21, 0x22, 0x31, 0x41})"

text \<open>A link that accepts every frame, whose clock advances by one second per reading and whose
  third poll reports the ACK status.\<close>

definition example_link :: link where
  "example_link =
     \<lparr>link_send = (\<lambda>address data. Inr 0),
      link_clock = (\<lambda>n. real n),
      link_loop = (\<lambda>n. if n = 2 then Inr (0, 6) else Inr (0, 0)),
      PJON_ACK = 6,
      PJON_BROADCAST = 0\<rparr>"

section \<open>Pairing: \<^verbatim>\<open>pairing/apiv1.py\<close>\<close>

subsection \<open>Enumerations and records of the absent \<^verbatim>\<open>types\<close> and \<^verbatim>\<open>registry.records\<close> modules\<close>

type_synonym uuid = nat

text \<open>Modelled from the spec: the enum \<^verbatim>\<open>RegisterType\<close> of the absent \<^verbatim>\<open>types\<close> module, with the
  wire values the spec gives (INPUT 1, OUTPUT 2, ATTRIBUTE 3, SETTING 4).\<close>

datatype RegisterType = INPUT | OUTPUT | ATTRIBUTE | SETTING

fun RegisterType_value :: "RegisterType \<Rightarrow> int" where
  "RegisterType_value INPUT = 0x01"
| "RegisterType_value OUTPUT = 0x02"
| "RegisterType_value ATTRIBUTE = 0x03"
| "RegisterType_value SETTING = 0x04"

text \<open>Modelled from the spec: the enum \<^verbatim>\<open>DeviceDataType\<close> of the absent \<^verbatim>\<open>types\<close> module, with the
  data types the spec lists.\<close>

datatype DeviceDataType =
  UNKNOWN | BOOL | U8 | U16 | U32 | I8 | I16 | I32 | FLOAT | STRING | ENUM | BUTTON | SWITCH | DATETIME

text \<open>Modelled from the spec: the enum \<^verbatim>\<open>PairingCommand\<close> of the absent \<^verbatim>\<open>types\<close> module, with the
  values of the spec's table of DISCOVER sub-commands.\<close>

datatype PairingCommand = SEARCH | WRITE_ADDRESS | PROVIDE_REGISTER_STRUCTURE | PAIRING_FINISHED

fun PairingCommand_value :: "PairingCommand \<Rightarrow> int" where
  "PairingCommand_value SEARCH = 0x01"
| "PairingCommand_value WRITE_ADDRESS = 0x02"
| "PairingCommand_value PROVIDE_REGISTER_STRUCTURE = 0x03"
| "PairingCommand_value PAIRING_FINISHED = 0x04"

text \<open>Modelled from the spec: the enum \<^verbatim>\<open>ConnectionState\<close> of the absent \<^verbatim>\<open>types\<close> module.\<close>

datatype ConnectionState =
  STATE_UNKNOWN | STATE_INIT | STATE_PAIRING | STATE_READY | STATE_LOST | STATE_STOPPED

text \<open>Modelled from the spec: \<^verbatim>\<open>Packet.DISCOVER\<close> of the absent \<^verbatim>\<open>types\<close> module has the value
  \<^verbatim>\<open>0x04\<close>.\<close>

definition Packet_DISCOVER :: int where
  "Packet_DISCOVER = 0x04"

text \<open>
  \<^verbatim>\<open>PairingDeviceRecord\<close>, with the fields that \<^verbatim>\<open>append_device\<close> passes to its constructor.
\<close>

record PairingDeviceRecord =
  dev_client_id :: uuid
  dev_id :: uuid
  dev_address :: int
  dev_max_packet_length :: int
  dev_serial_number :: string
  dev_hardware_version :: string
  dev_hardware_model :: string
  dev_hardware_manufacturer :: string
  dev_firmware_version :: string
  dev_firmware_manufacturer :: string
  dev_input_registers_size :: int
  dev_output_registers_size :: int
  dev_attributes_registers_size :: int
  dev_settings_registers_size :: int
  dev_pub_sub_pub_support :: bool
  dev_pub_sub_sub_support :: bool
  dev_max_subscriptions :: int
  dev_max_subscription_conditions :: int
  dev_max_subscription_actions :: int

text \<open>
  \<^verbatim>\<open>PairingRegisterRecord\<close> and its four subclasses in one record: \<open>reg_type\<close> is the
  subclass; a field that a subclass does not take keeps \<open>None\<close> or \<open>False\<close>.
\<close>

record PairingRegisterRecord =
  reg_type :: RegisterType
  reg_id :: uuid
  reg_address :: int
  reg_data_type :: DeviceDataType
  reg_key :: "string option"
  reg_name :: "string option"
  reg_settable :: bool
  reg_queryable :: bool

text \<open>A device record of the devices registry, with the fields that pairing reads.\<close>

record DeviceRecord =
  dr_id :: uuid
  dr_address :: int
  dr_serial_number :: string
  dr_state :: ConnectionState

text \<open>A register record of the registers registry; \<open>rr_class\<close> is its class
  (\<^verbatim>\<open>isinstance(record, AttributeRegisterRecord)\<close> is \<open>rr_class record = ATTRIBUTE\<close>).\<close>

record RegisterRecord =
  rr_class :: RegisterType
  rr_id :: uuid
  rr_address :: int
  rr_key :: "string option"
  rr_name :: "string option"
  rr_settable :: bool
  rr_queryable :: bool

subsection \<open>What pairing sees of its collaborators\<close>

text \<open>A call on the client proxy \<^verbatim>\<open>self.__client\<close> (class \<^verbatim>\<open>Client\<close>, absent): the method, and
  the arguments in the order payload, waiting time or address, client id.\<close>

datatype client_call =
    BroadcastPacket "int list" real "uuid option"
  | SendPacket int "int list" "uuid option"

text \<open>
  All that one call of a pairing method observes from outside: the clock reading taken in
  the condition of \<^verbatim>\<open>loop\<close> (\<open>now_check\<close>), the one taken in a send handler (\<open>now_send\<close>), the
  one taken after a failed send (\<open>now_failed\<close>); the client proxy, which returns a result and
  leaves the payload list object in some state; the two registries; and the identifiers
  \<^verbatim>\<open>uuid.uuid4()\<close> returns for a new register of a given type and address.
\<close>

record env =
  now_check :: real
  now_send :: real
  now_failed :: real
  client :: "client_call \<Rightarrow> bool \<times> int list"
  devices_get_by_id :: "uuid \<Rightarrow> DeviceRecord option"
  find_free_address :: "uuid \<Rightarrow> int option"
  registers_get_by_address :: "uuid \<Rightarrow> RegisterType \<Rightarrow> int \<Rightarrow> RegisterRecord option"
  uuid4 :: "RegisterType \<Rightarrow> int \<Rightarrow> uuid"

subsection \<open>The state of \<^verbatim>\<open>ApiV1Pairing\<close>\<close>

text \<open>
  The two Python sets are lists without repetition, in the order in which the set is
  iterated (and in which \<^verbatim>\<open>pop()\<close> takes elements). \<open>client_calls\<close> and \<open>set_state_calls\<close> are
  not attributes of the class: they record, in order, the calls made on the client proxy and
  the \<^verbatim>\<open>set_state\<close> calls made on the devices registry.
\<close>

record ApiV1Pairing =
  found_devices :: "PairingDeviceRecord list"
  pairing_device :: "PairingDeviceRecord option"
  pairing_device_registers :: "PairingRegisterRecord list"
  last_request_send_timestamp :: real
  waiting_for_packet :: "int option"
  attempts :: nat
  total_attempts :: nat
  pairing_enabled :: bool
  pairing_cmd :: PairingCommand
  processing_register_address :: "int option"
  processing_register_type :: "RegisterType option"
  broadcasting_search_finished :: bool
  finished_cmd :: "PairingCommand list"
  client_id :: "uuid list option"
  client_calls :: "client_call list"
  set_state_calls :: "(uuid \<times> ConnectionState) list"

definition MAX_SEARCHING_ATTEMPTS :: nat where "MAX_SEARCHING_ATTEMPTS = 5"
definition MAX_TRANSMIT_ATTEMPTS :: nat where "MAX_TRANSMIT_ATTEMPTS = 5"
definition MAX_TOTAL_TRANSMIT_ATTEMPTS :: nat where "MAX_TOTAL_TRANSMIT_ATTEMPTS = 100"
definition SEARCHING_DELAY :: real where "SEARCHING_DELAY = 2.0"
definition MAX_PAIRING_DELAY :: real where "MAX_PAIRING_DELAY = 5.0"
definition BROADCAST_WAITING_DELAY :: real where "BROADCAST_WAITING_DELAY = 2.0"
definition ADDRESS_NOT_ASSIGNED :: int where "ADDRESS_NOT_ASSIGNED = 255"

subsection \<open>Operations on the two sets\<close>

text \<open>\<^verbatim>\<open>set.add\<close>: nothing happens when an equal element is in the set. Where a new element lands
  in the iteration order depends on hashes; the model appends it, and no statement below
  depends on that place.\<close>

definition set_add :: "'a \<Rightarrow> 'a list \<Rightarrow> 'a list" where
  "set_add x xs = (if x \<in> set xs then xs else xs @ [x])"

text \<open>\<^verbatim>\<open>for r in s: if r.id == i: s.remove(r); break\<close>.\<close>

fun remove_by_id :: "uuid \<Rightarrow> PairingRegisterRecord list \<Rightarrow> PairingRegisterRecord list" where
  "remove_by_id i [] = []"
| "remove_by_id i (r # rs) = (if reg_id r = i then rs else r # remove_by_id i rs)"

subsection \<open>Resetting, enabling and disabling\<close>

definition reset_device_pointers :: "ApiV1Pairing \<Rightarrow> ApiV1Pairing" where
  "reset_device_pointers s =
     s\<lparr>pairing_device := None,
       pairing_device_registers := [],
       pairing_cmd := WRITE_ADDRESS,
       waiting_for_packet := None,
       attempts := 0,
       total_attempts := 0,
       processing_register_address := None,
       processing_register_type := None,
       finished_cmd := []\<rparr>"

definition reset_pointers :: "ApiV1Pairing \<Rightarrow> ApiV1Pairing" where
  "reset_pointers s =
     reset_device_pointers
       (s\<lparr>found_devices := [],
          last_request_send_timestamp := 0.0,
          broadcasting_search_finished := False\<rparr>)"



definition disable :: "ApiV1Pairing \<Rightarrow> ApiV1Pairing" where
  "disable s = reset_pointers (s\<lparr>pairing_enabled := False\<rparr>)"

definition is_enabled :: "ApiV1Pairing \<Rightarrow> bool" where
  "is_enabled s = pairing_enabled s"

subsection \<open>What the receiver calls when a reply arrives\<close>


definition append_input_register ::
  "uuid \<Rightarrow> int \<Rightarrow> DeviceDataType \<Rightarrow> string option \<Rightarrow> ApiV1Pairing \<Rightarrow> ApiV1Pairing" where
  "append_input_register register_id register_address register_data_type register_key s =
     s\<lparr>pairing_device_registers :=
         set_add \<lparr>reg_type = INPUT, reg_id = register_id, reg_address = register_address,
                  reg_data_type = register_data_type, reg_key = register_key, reg_name = None,
                  reg_settable = False, reg_queryable = False\<rparr>
           (remove_by_id register_id (pairing_device_registers s))\<rparr>"

definition append_output_register ::
  "uuid \<Rightarrow> int \<Rightarrow> DeviceDataType \<Rightarrow> string option \<Rightarrow> ApiV1Pairing \<Rightarrow> ApiV1Pairing" where
  "append_output_register register_id register_address register_data_type register_key s =
     s\<lparr>pairing_device_registers :=
         set_add \<lparr>reg_type = OUTPUT, reg_id = register_id, reg_address = register_address,
                  reg_data_type = register_data_type, reg_key = register_key, reg_name = None,
                  reg_settable = False, reg_queryable = False\<rparr>
           (remove_by_id register_id (pairing_device_registers s))\<rparr>"

definition append_attribute ::
  "uuid \<Rightarrow> int \<Rightarrow> string option \<Rightarrow> string option \<Rightarrow> DeviceDataType \<Rightarrow> bool \<Rightarrow> bool \<Rightarrow>
   ApiV1Pairing \<Rightarrow> ApiV1Pairing" where
  "append_attribute attribute_id attribute_address attribute_key attribute_name attribute_data_type
     attribute_settable attribute_queryable s =
     s\<lparr>pairing_device_registers :=
         set_add \<lparr>reg_type = ATTRIBUTE, reg_id = attribute_id, reg_address = attribute_address,
                  reg_data_type = attribute_data_type, reg_key = attribute_key,
                  reg_name = attribute_name, reg_settable = attribute_settable,
                  reg_queryable = attribute_queryable\<rparr>
           (remove_by_id attribute_id (pairing_device_registers s))\<rparr>"

definition append_setting ::
  "uuid \<Rightarrow> int \<Rightarrow> string option \<Rightarrow> DeviceDataType \<Rightarrow> ApiV1Pairing \<Rightarrow> ApiV1Pairing" where
  "append_setting setting_id setting_address setting_name setting_data_type s =
     s\<lparr>pairing_device_registers :=
         set_add \<lparr>reg_type = SETTING, reg_id = setting_id, reg_address = setting_address,
                  reg_data_type = setting_data_type, reg_key = None, reg_name = setting_name,
                  reg_settable = False, reg_queryable = False\<rparr>
           (remove_by_id setting_id (pairing_device_registers s))\<rparr>"


subsection \<open>Choosing the next register\<close>

definition has_registers_to_init :: "ApiV1Pairing \<Rightarrow> bool" where
  "has_registers_to_init s =
     list_ex (\<lambda>register. reg_data_type register = UNKNOWN) (pairing_device_registers s)"

text \<open>
  \<^verbatim>\<open>move_to_next_register_for_init\<close>: three loops over the set, each returning at its first
  match. The first loop takes INPUT and OUTPUT registers alike.
\<close>

definition move_to_next_register_for_init :: "ApiV1Pairing \<Rightarrow> bool \<times> ApiV1Pairing" where
  "move_to_next_register_for_init s =
     (let s = s\<lparr>processing_register_type := None, processing_register_address := None\<rparr> in
      if has_registers_to_init s then
        (case find (\<lambda>register. reg_data_type register = UNKNOWN \<and>
                                reg_type register \<in> {INPUT, OUTPUT})
                   (pairing_device_registers s) of
           Some register \<Rightarrow>
             (True, s\<lparr>processing_register_type := Some (reg_type register),
                      processing_register_address := Some (reg_address register),
                      waiting_for_packet := None, attempts := 0\<rparr>)
         | None \<Rightarrow>
        (case find (\<lambda>attribute. reg_data_type attribute = UNKNOWN \<and>
                                 reg_type attribute = ATTRIBUTE)
                   (pairing_device_registers s) of
           Some attribute \<Rightarrow>
             (True, s\<lparr>processing_register_type := Some ATTRIBUTE,
                      processing_register_address := Some (reg_address attribute),
                      waiting_for_packet := None, attempts := 0\<rparr>)
         | None \<Rightarrow>
        (case find (\<lambda>setting. reg_data_type setting = UNKNOWN \<and> reg_type setting = SETTING)
                   (pairing_device_registers s) of
           Some setting \<Rightarrow>
             (True, s\<lparr>processing_register_type := Some SETTING,
                      processing_register_address := Some (reg_address setting),
                      waiting_for_packet := None, attempts := 0\<rparr>)
         | None \<Rightarrow> (False, s))))
      else (False, s))"

subsection \<open>\<^verbatim>\<open>discover_device\<close>\<close>

text \<open>\<^verbatim>\<open>__configure_registers\<close>: the body of \<^verbatim>\<open>for i in range(registers_size)\<close>, then the loop.\<close>

definition configure_register ::
  "env \<Rightarrow> uuid \<Rightarrow> RegisterType \<Rightarrow> nat \<Rightarrow> ApiV1Pairing \<Rightarrow> ApiV1Pairing" where
  "configure_register e device_id registers_type i s =
     (case registers_get_by_address e device_id registers_type (int i) of
        Some register_record \<Rightarrow>
          if registers_type = INPUT
          then append_input_register (rr_id register_record) (rr_address register_record) UNKNOWN
                 (rr_key register_record) s
          else if registers_type = OUTPUT
          then append_output_register (rr_id register_record) (rr_address register_record) UNKNOWN
                 (rr_key register_record) s
          else s
      | None \<Rightarrow>
          if registers_type = INPUT
          then append_input_register (uuid4 e registers_type (int i)) (int i) UNKNOWN None s
          else if registers_type = OUTPUT
          then append_output_register (uuid4 e registers_type (int i)) (int i) UNKNOWN None s
          else s)"

definition configure_registers ::
  "env \<Rightarrow> uuid \<Rightarrow> int \<Rightarrow> RegisterType \<Rightarrow> ApiV1Pairing \<Rightarrow> ApiV1Pairing" where
  "configure_registers e device_id registers_size registers_type s =
     fold (configure_register e device_id registers_type) [0..<nat registers_size] s"

definition configure_attribute :: "env \<Rightarrow> uuid \<Rightarrow> nat \<Rightarrow> ApiV1Pairing \<Rightarrow> ApiV1Pairing" where
  "configure_attribute e device_id i s =
     (case registers_get_by_address e device_id ATTRIBUTE (int i) of
        Some attribute_record \<Rightarrow>
          if rr_class attribute_record = ATTRIBUTE
          then append_attribute (rr_id attribute_record) (rr_address attribute_record)
                 (rr_key attribute_record) (rr_name attribute_record) UNKNOWN
                 (rr_settable attribute_record) (rr_queryable attribute_record) s
          else s
      | None \<Rightarrow> append_attribute (uuid4 e ATTRIBUTE (int i)) (int i) None None UNKNOWN True True s)"

definition configure_attributes :: "env \<Rightarrow> uuid \<Rightarrow> int \<Rightarrow> ApiV1Pairing \<Rightarrow> ApiV1Pairing" where
  "configure_attributes e device_id attributes_size s =
     fold (configure_attribute e device_id) [0..<nat attributes_size] s"

definition configure_setting :: "env \<Rightarrow> uuid \<Rightarrow> nat \<Rightarrow> ApiV1Pairing \<Rightarrow> ApiV1Pairing" where
  "configure_setting e device_id i s =
     (case registers_get_by_address e device_id SETTING (int i) of
        Some setting_record \<Rightarrow>
          if rr_class setting_record = SETTING
          then append_setting (rr_id setting_record) (rr_address setting_record)
                 (rr_name setting_record) UNKNOWN s
          else s
      | None \<Rightarrow> append_setting (uuid4 e SETTING (int i)) (int i) None UNKNOWN s)"

definition configure_settings :: "env \<Rightarrow> uuid \<Rightarrow> int \<Rightarrow> ApiV1Pairing \<Rightarrow> ApiV1Pairing" where
  "configure_settings e device_id settings_size s =
     fold (configure_setting e device_id) [0..<nat settings_size] s"

text \<open>The tail of \<^verbatim>\<open>discover_device\<close>, from the comment \<^verbatim>\<open># Input registers\<close> on, for the
  device \<open>d\<close> that \<^verbatim>\<open>self.__pairing_device\<close> holds.\<close>

definition configure_device :: "env \<Rightarrow> PairingDeviceRecord \<Rightarrow> ApiV1Pairing \<Rightarrow> ApiV1Pairing" where
  "configure_device e d s =
     configure_settings e (dev_id d) (dev_settings_registers_size d)
       (configure_attributes e (dev_id d) (dev_attributes_registers_size d)
          (configure_registers e (dev_id d) (dev_output_registers_size d) OUTPUT
             (configure_registers e (dev_id d) (dev_input_registers_size d) INPUT s)))"

text \<open>
  The address \<^verbatim>\<open>discover_device\<close> gives the popped device: a free one for a device the registry
  does not know or knows without an address, the registry's one otherwise; \<open>None\<close> when a free
  address is needed and there is none.
\<close>

definition address_for :: "env \<Rightarrow> PairingDeviceRecord \<Rightarrow> int option" where
  "address_for e d =
     (case devices_get_by_id e (dev_id d) of
        None \<Rightarrow> find_free_address e (dev_client_id d)
      | Some device_record \<Rightarrow>
          if dr_address device_record = ADDRESS_NOT_ASSIGNED
          then find_free_address e (dev_client_id d)
          else Some (dr_address device_record))"

text \<open>
  \<^verbatim>\<open>discover_device\<close>. \<^verbatim>\<open>pop()\<close> on the empty set raises KeyError, which is caught. When no free
  address is found the method calls itself for the next device. A device the registry knows
  is put into state PAIRING once its address is settled.
\<close>

function discover_device :: "env \<Rightarrow> ApiV1Pairing \<Rightarrow> ApiV1Pairing" where
  "discover_device e s =
     (let s = reset_device_pointers s in
      case found_devices s of
        [] \<Rightarrow> disable s
      | d # rest \<Rightarrow>
          let s = s\<lparr>pairing_device := Some d, found_devices := rest\<rparr>;
              s = s\<lparr>attempts := 0, total_attempts := 0\<rparr>
          in (case address_for e d of
                None \<Rightarrow> discover_device e s
              | Some free_address \<Rightarrow>
                  let d = d\<lparr>dev_address := free_address\<rparr>;
                      s = s\<lparr>pairing_device := Some d\<rparr>;
                      s = (case devices_get_by_id e (dev_id d) of
                             None \<Rightarrow> s
                           | Some device_record \<Rightarrow>
                               s\<lparr>set_state_calls :=
                                    set_state_calls s @ [(dr_id device_record, STATE_PAIRING)]\<rparr>)
                  in configure_device e d s))"
  by pat_completeness auto
termination
  by (relation "measure (\<lambda>(e, s). length (found_devices s))")
     (auto simp: reset_device_pointers_def)

declare discover_device.simps [simp del]

subsection \<open>Sending\<close>

text \<open>
  \<^verbatim>\<open>for client_id in self.__client_id: result = self.__client.f(..., client_id=client_id)\<close>: every
  call gets the same list object, in the state the call before left it in. The triple is the
  last result, the list object, and the calls made.
\<close>

fun call_each ::
  "env \<Rightarrow> (int list \<Rightarrow> uuid option \<Rightarrow> client_call) \<Rightarrow> uuid list \<Rightarrow>
   bool \<times> int list \<times> client_call list \<Rightarrow> bool \<times> int list \<times> client_call list" where
  "call_each e f [] acc = acc"
| "call_each e f (c # cs) (result, payload, calls) =
     (let call = f payload (Some c); (result, payload) = client e call
      in call_each e f cs (result, payload, calls @ [call]))"

text \<open>\<^verbatim>\<open>if isinstance(self.__client_id, list): ... else: ...\<close>, starting from \<^verbatim>\<open>result = False\<close>.\<close>

definition call_clients ::
  "env \<Rightarrow> (int list \<Rightarrow> uuid option \<Rightarrow> client_call) \<Rightarrow> uuid list option \<Rightarrow> int list \<Rightarrow>
   bool \<times> int list \<times> client_call list" where
  "call_clients e f ids payload =
     (case ids of
        Some cs \<Rightarrow> call_each e f cs (False, payload, [])
      | None \<Rightarrow> (let call = f payload None; (result, payload) = client e call
                 in (result, payload, [call])))"

text \<open>The four assignments every send handler starts with.\<close>

definition mark_waiting :: "env \<Rightarrow> ApiV1Pairing \<Rightarrow> ApiV1Pairing" where
  "mark_waiting e s =
     s\<lparr>waiting_for_packet := Some Packet_DISCOVER,
       attempts := attempts s + 1,
       total_attempts := total_attempts s + 1,
       last_request_send_timestamp := now_send e\<rparr>"

definition broadcast_search_devices_handler :: "env \<Rightarrow> ApiV1Pairing \<Rightarrow> ApiV1Pairing" where
  "broadcast_search_devices_handler e s =
     (let s = mark_waiting e s;
          output_content = [ProtocolVersion_V1, Packet_DISCOVER, PairingCommand_value SEARCH];
          (result, output_content, calls) =
             call_clients e (\<lambda>payload c. BroadcastPacket payload BROADCAST_WAITING_DELAY c)
               (client_id s) output_content
      in s\<lparr>client_calls := client_calls s @ calls\<rparr>)"

text \<open>\<^verbatim>\<open>ord(char)\<close> is the code point of the character.\<close>

definition broadcast_write_address_handler ::
  "env \<Rightarrow> PairingDeviceRecord \<Rightarrow> ApiV1Pairing \<Rightarrow> ApiV1Pairing" where
  "broadcast_write_address_handler e device s =
     (let s = mark_waiting e s;
          output_content =
            [ProtocolVersion_V1, Packet_DISCOVER, PairingCommand_value WRITE_ADDRESS,
             dev_address device, int (length (dev_serial_number device))]
            @ map (\<lambda>char. int (of_char char)) (dev_serial_number device);
          (result, output_content, calls) =
             call_clients e (\<lambda>payload c. BroadcastPacket payload BROADCAST_WAITING_DELAY c)
               (client_id s) output_content
      in s\<lparr>client_calls := client_calls s @ calls\<rparr>)"

text \<open>
  \<^verbatim>\<open>__send_data_to_device\<close>; the second component is the caller's list object \<^verbatim>\<open>data\<close> after
  the call. (The debug message evaluates \<^verbatim>\<open>PairingCommand(data[1])\<close>; both callers pass a list
  whose element 1 is a pairing command.)
\<close>

definition send_data_to_device ::
  "env \<Rightarrow> int list \<Rightarrow> int \<Rightarrow> ApiV1Pairing \<Rightarrow> ApiV1Pairing \<times> int list" where
  "send_data_to_device e data address s =
     (let s = mark_waiting e s;
          data = ProtocolVersion_V1 # data;
          (result, data, calls) =
             call_clients e (\<lambda>payload c. SendPacket address payload c) (client_id s) data;
          s = s\<lparr>client_calls := client_calls s @ calls\<rparr>;
          s = (if \<not> result
               then s\<lparr>waiting_for_packet := None, attempts := 0,
                      last_request_send_timestamp := now_failed e\<rparr>
               else s)
      in (s, data))"

definition send_finalize_pairing_handler ::
  "env \<Rightarrow> PairingDeviceRecord \<Rightarrow> ApiV1Pairing \<Rightarrow> ApiV1Pairing" where
  "send_finalize_pairing_handler e device s =
     (let output_content = [Packet_DISCOVER, PairingCommand_value PAIRING_FINISHED]
      in fst (send_data_to_device e output_content (dev_address device) s))"

definition send_provide_register_structure_handler ::
  "env \<Rightarrow> PairingDeviceRecord \<Rightarrow> ApiV1Pairing \<Rightarrow> ApiV1Pairing" where
  "send_provide_register_structure_handler e device s =
     (case (processing_register_address s, processing_register_type s) of
        (Some register_address, Some register_type) \<Rightarrow>
          (let output_content =
                 [Packet_DISCOVER, PairingCommand_value PROVIDE_REGISTER_STRUCTURE,
                  RegisterType_value register_type,
                  drop_bit 8 register_address, register_address AND 0xFF]
           in fst (send_data_to_device e output_content (dev_address device) s))
      | _ \<Rightarrow> s\<lparr>waiting_for_packet := None, attempts := 0\<rparr>)"

subsection \<open>\<^verbatim>\<open>loop\<close>\<close>

definition move_to_next_cmd :: "ApiV1Pairing \<Rightarrow> ApiV1Pairing" where
  "move_to_next_cmd s =
     (if WRITE_ADDRESS \<notin> set (finished_cmd s) then s\<lparr>pairing_cmd := WRITE_ADDRESS\<rparr>
      else if PROVIDE_REGISTER_STRUCTURE \<notin> set (finished_cmd s) \<and> has_registers_to_init s
      then (snd (move_to_next_register_for_init s))\<lparr>pairing_cmd := PROVIDE_REGISTER_STRUCTURE\<rparr>
      else if PAIRING_FINISHED \<notin> set (finished_cmd s) then s\<lparr>pairing_cmd := PAIRING_FINISHED\<rparr>
      else s)"

text \<open>
  The end of \<^verbatim>\<open>loop\<close>: the three \<^verbatim>\<open>if self.__pairing_cmd == ...\<close> statements, which run one after
  the other, each on the state the one before left.
\<close>

definition send_current_command :: "env \<Rightarrow> PairingDeviceRecord \<Rightarrow> ApiV1Pairing \<Rightarrow> ApiV1Pairing" where
  "send_current_command e device s =
     (let s = (if pairing_cmd s = WRITE_ADDRESS
               then broadcast_write_address_handler e device s else s);
          s = (if pairing_cmd s = PROVIDE_REGISTER_STRUCTURE
               then send_provide_register_structure_handler e device s else s);
          s = (if pairing_cmd s = PAIRING_FINISHED
               then send_finalize_pairing_handler e device s else s)
      in s)"

text \<open>
  \<^verbatim>\<open>loop\<close>. After the total-attempts guard has called \<^verbatim>\<open>disable\<close> the method goes on (there is
  no \<^verbatim>\<open>return\<close> in that branch).
\<close>

definition loop :: "env \<Rightarrow> ApiV1Pairing \<Rightarrow> ApiV1Pairing" where
  "loop e s =
     (if \<not> pairing_enabled s then s
      else
        let s = (if total_attempts s \<ge> MAX_TOTAL_TRANSMIT_ATTEMPTS then disable s else s) in
        if \<not> broadcasting_search_finished s then
          (if attempts s < MAX_SEARCHING_ATTEMPTS then
             (if waiting_for_packet s = None
                 \<or> last_request_send_timestamp s = 0
                 \<or> (waiting_for_packet s \<noteq> None
                     \<and> now_check e - last_request_send_timestamp s \<ge> SEARCHING_DELAY)
              then broadcast_search_devices_handler e s
              else s)
           else discover_device e (s\<lparr>broadcasting_search_finished := True\<rparr>))
        else
          (case pairing_device s of
             None \<Rightarrow> s
           | Some device \<Rightarrow>
               if attempts s \<ge> MAX_TRANSMIT_ATTEMPTS
                  \<or> now_check e - last_request_send_timestamp s \<ge> MAX_PAIRING_DELAY
               then discover_device e s
               else if waiting_for_packet s \<noteq> None then s
               else send_current_command e device (move_to_next_cmd s)))"

subsection \<open>Runs of the pairing subsystem\<close>






subsection \<open>Functions that change the register set only\<close>

definition only_registers :: "(ApiV1Pairing \<Rightarrow> ApiV1Pairing) \<Rightarrow> bool" where
  "only_registers f \<longleftrightarrow> (\<forall>s. \<exists>regs. f s = s\<lparr>pairing_device_registers := regs\<rparr>)"

subsection \<open>The initial state, and concrete inputs for the examples\<close>

text \<open>The values the class body of \<^verbatim>\<open>ApiV1Pairing\<close> gives its attributes.\<close>

definition initial_pairing :: ApiV1Pairing where
  "initial_pairing =
     \<lparr>found_devices = [], pairing_device = None, pairing_device_registers = [],
      last_request_send_timestamp = 0.0, waiting_for_packet = None, attempts = 0,
      total_attempts = 0, pairing_enabled = False, pairing_cmd = WRITE_ADDRESS,
      processing_register_address = None, processing_register_type = None,
      broadcasting_search_finished = False, finished_cmd = [], client_id = None,
      client_calls = [], set_state_calls = []\<rparr>"

definition example_register ::
  "RegisterType \<Rightarrow> uuid \<Rightarrow> int \<Rightarrow> DeviceDataType \<Rightarrow> PairingRegisterRecord" where
  "example_register t i a dt =
     \<lparr>reg_type = t, reg_id = i, reg_address = a, reg_data_type = dt, reg_key = None,
      reg_name = None, reg_settable = False, reg_queryable = False\<rparr>"

text \<open>A device without registers, known by its identifier and serial number.\<close>

definition example_device :: "uuid \<Rightarrow> string \<Rightarrow> PairingDeviceRecord" where
  "example_device i serial =
     \<lparr>dev_client_id = 0, dev_id = i, dev_address = 255, dev_max_packet_length = 80,
      dev_serial_number = serial, dev_hardware_version = ''1'', dev_hardware_model = ''m'',
      dev_hardware_manufacturer = ''f'', dev_firmware_version = ''1'',
      dev_firmware_manufacturer = ''f'', dev_input_registers_size = 0,
      dev_output_registers_size = 0, dev_attributes_registers_size = 0,
      dev_settings_registers_size = 0, dev_pub_sub_pub_support = False,
      dev_pub_sub_sub_support = False, dev_max_subscriptions = 0,
      dev_max_subscription_conditions = 0, dev_max_subscription_actions = 0\<rparr>"

text \<open>The payload list a client call was given.\<close>

fun call_payload :: "client_call \<Rightarrow> int list" where
  "call_payload (BroadcastPacket payload waiting_time c) = payload"
| "call_payload (SendPacket address payload c) = payload"

text \<open>
  What a pairing call observes at clock reading \<open>t\<close> when the registries are empty, the
  address \<open>3\<close> is free and the client proxy reports success and leaves the list as it is.
\<close>

definition example_env :: "real \<Rightarrow> env" where
  "example_env t =
     \<lparr>now_check = t, now_send = t, now_failed = t,
      client = (\<lambda>call. (True, call_payload call)),
      devices_get_by_id = (\<lambda>i. None),
      find_free_address = (\<lambda>c. Some 3),
      registers_get_by_address = (\<lambda>i t a. None),
      uuid4 = (\<lambda>t a. 1000 + nat a)\<rparr>"


text \<open>A state in the middle of an enrollment: the search is over, the device \<^verbatim>\<open>AAA\<close> is being
  paired and has been sent one command at clock reading 10, the device \<^verbatim>\<open>BBB\<close> waits.\<close>

definition example_enrolling :: ApiV1Pairing where
  "example_enrolling =
     initial_pairing
       \<lparr>found_devices := [example_device 2 ''BBB''],
        pairing_device := Some (example_device 1 ''AAA''),
        last_request_send_timestamp := 10,
        waiting_for_packet := Some Packet_DISCOVER,
        attempts := 1,
        total_attempts := 1,
        pairing_enabled := True,
        broadcasting_search_finished := True\<rparr>"





section \<open>The connector: \<^verbatim>\<open>connector.py\<close>\<close>

text \<open>The components whose \<^verbatim>\<open>loop\<close> the connector calls.\<close>

datatype component = Receiver | Consumer | Pairing | Publisher | Client

text \<open>
  The connector object. \<open>devices_registry\<close> holds the records of the devices registry;
  \<open>collaborators\<close> is the state of the receiver, the consumer, the publisher, the pairing
  handler and the client, whose classes are not part of the connector; \<open>loop_calls\<close> is not an
  attribute: it records, in order, whose \<^verbatim>\<open>loop()\<close> the connector has called.
\<close>

record 'x FbBusConnector =
  stopped :: bool
  packets_to_be_sent :: int
  devices_registry :: "DeviceRecord list"
  collaborators :: 'x
  loop_calls :: "component list"


text \<open>Modelled from the spec: \<^verbatim>\<open>DevicesRegistry.set_state\<close> of the absent \<^verbatim>\<open>registry.model\<close>
  module: the record of the given device takes the given state.\<close>

definition registry_set_state ::
  "DeviceRecord \<Rightarrow> ConnectionState \<Rightarrow> DeviceRecord list \<Rightarrow> DeviceRecord list" where
  "registry_set_state device state registry =
     map (\<lambda>record. if dr_id record = dr_id device then record\<lparr>dr_state := state\<rparr> else record)
       registry"

text \<open>\<^verbatim>\<open>for device in self.__devices_registry: self.__devices_registry.set_state(...)\<close>.\<close>

definition set_all_unknown :: "DeviceRecord list \<Rightarrow> DeviceRecord list" where
  "set_all_unknown registry =
     fold (\<lambda>device. registry_set_state device STATE_UNKNOWN) registry registry"

definition start :: "'x FbBusConnector \<Rightarrow> 'x FbBusConnector" where
  "start s = (s\<lparr>stopped := False\<rparr>)\<lparr>devices_registry := set_all_unknown (devices_registry s)\<rparr>"

definition stop :: "'x FbBusConnector \<Rightarrow> 'x FbBusConnector" where
  "stop s = (s\<lparr>devices_registry := set_all_unknown (devices_registry s)\<rparr>)\<lparr>stopped := True\<rparr>"






section \<open>Properties of the frame layer\<close>

subsection \<open>The CRC of the source against the reference\<close>

lemma crc_test_iff:
  "(((uint (w::16 word)) AND 0x0001) XOR (c AND 0x0001)) \<noteq> 0 \<longleftrightarrow> (bit w 0 \<noteq> bit (c::int) 0)"
proof -
  have e: "odd (uint w) = odd w"
    using bit_uint_iff [of w 0] by (simp add: bit_0)
  show ?thesis
    by (cases "odd w"; cases "odd c"; simp add: and_one_eq mod_2_eq_odd bit_0 e)
qed

lemma uint_drop_bit16: "drop_bit n (uint (w::16 word)) = uint (drop_bit n w)"
  by (metis drop_bit_of_nat of_nat_unat unat_drop_bit_eq)

lemma uint_xor_poly: "uint (w::16 word) XOR 0x8408 = uint (w XOR 0x8408)"
  by (simp add: unsigned_xor_eq)

lemma mask16: "(0xFFFF::int) = mask 16" by (simp add: mask_eq_exp_minus_1)
lemma mask8: "(0xFF::int) = mask 8" by (simp add: mask_eq_exp_minus_1)

lemma byte_mask: "0xFF AND uint (b::8 word) = uint b"
  unfolding mask8 by (rule bit_eqI) (auto simp add: bit_simps dest: bit_imp_le_length)

lemma crc_step_ref:
  "(if ((uint (w::16 word) AND 0x0001) XOR (c AND 0x0001)) \<noteq> 0
    then drop_bit 1 (uint w) XOR 0x8408 else drop_bit 1 (uint w)) = uint (ref_crc_bit w (bit c 0))"
  unfolding crc_test_iff ref_crc_bit_def uint_drop_bit16 uint_xor_poly by simp

lemma crc16_bits_Suc:
  "crc16_bits (Suc n) poly crc c =
     crc16_bits n poly (if ((crc AND 0x0001) XOR (c AND 0x0001)) \<noteq> 0
                        then drop_bit 1 crc XOR poly else drop_bit 1 crc) (drop_bit 1 c)"
  by simp

lemma crc16_bits_ref:
  "crc16_bits n 0x8408 (uint (w::16 word)) c = uint (foldl (\<lambda>r i. ref_crc_bit r (bit c i)) w [0..<n])"
proof (induction n arbitrary: w c)
  case 0
  then show ?case by simp
next
  case (Suc n)
  have up: "[0..<Suc n] = 0 # map Suc [0..<n]"
    by (simp add: upt_conv_Cons map_Suc_upt del: upt_Suc)
  have sh: "\<And>i. bit c (Suc i) = bit (drop_bit 1 c) i"
    by (simp add: bit_drop_bit_eq)
  show ?case
    unfolding up crc16_bits_Suc crc_step_ref Suc.IH
    by (simp add: foldl_map sh del: upt_Suc)
qed

lemma bit_uint8: "bit (uint (b::8 word)) i = bit b i"
  by (auto simp: bit_uint_iff dest: bit_imp_le_length)

lemma crc16_byte_ref:
  "crc16_bits 8 0x8408 (uint (w::16 word)) (0xFF AND uint (b::8 word)) = uint (ref_crc_byte w b)"
  unfolding byte_mask ref_crc_byte_def crc16_bits_ref bit_uint8 ..

lemma crc16_bytes_ref:
  "crc16_bytes 0x8408 (uint (w::16 word)) data = uint (foldl ref_crc_byte w data)"
  by (induction data arbitrary: w) (simp_all add: crc16_byte_ref del: crc16_bits.simps)

lemma fin1: "(NOT (uint (w::16 word))) AND 0xFFFF = uint (NOT w)"
  unfolding mask16 by (rule bit_eqI) (auto simp add: bit_simps)

lemma fin2: "((push_bit 8 (uint (v::16 word))) OR ((drop_bit 8 (uint v)) AND 0xFF)) AND 0xFFFF = uint (push_bit 8 v OR drop_bit 8 v)"
  unfolding mask16 mask8 by (rule bit_eqI) (auto simp add: bit_simps dest: bit_imp_le_length)

lemma crc16_eq_ref: "crc16 data = uint (ref_crc16 data)"
proof -
  have s: "(0xFFFF::int) = uint (0xFFFF :: 16 word)" by simp
  have "crc16_bytes 0x8408 0xFFFF data = uint (foldl ref_crc_byte 0xFFFF data)"
    by (subst s) (rule crc16_bytes_ref)
  then show ?thesis
    unfolding crc16_def crc16_poly_def Let_def ref_crc16_def ref_swap_bytes_def
    by (simp only: fin1 fin2)
qed

lemma crc16_range: "0 \<le> crc16 data \<and> crc16 data < 65536"
  unfolding crc16_eq_ref using uint_lt2p [of "ref_crc16 data"] by simp

lemma split_join: "0 \<le> c \<Longrightarrow> c < 65536 \<Longrightarrow> push_bit 8 (drop_bit 8 c) OR (c AND 0xFF) = (c::int)"
  unfolding mask8 by (rule bit_eqI) (auto simp add: bit_simps)

subsection \<open>Bytes, frames and \<^verbatim>\<open>send_packet\<close>\<close>

lemma crc16_S1: "crc16 [1, 4, 1] = 63978"
  by code_simp

lemma to_bytes_map_uint: "to_bytes (map uint (ws::bytes)) = Inr ws"
proof -
  have "list_all (\<lambda>x. 0 \<le> x \<and> x < 256) (map uint ws)"
    using uint_lt2p [where 'a=8] by (auto simp: list_all_iff)
  then show ?thesis by (simp add: to_bytes_def map_idI)
qed

lemma to_bytes_Inr: "to_bytes xs = Inr ws \<Longrightarrow> map uint ws = xs"
proof -
  assume a: "to_bytes xs = Inr ws"
  then have r: "\<forall>x\<in>set xs. 0 \<le> x \<and> x < 256" and w: "ws = map word_of_int xs"
    by (auto simp: to_bytes_def list_all_iff split: if_splits)
  have "\<And>x. x \<in> set xs \<Longrightarrow> uint (word_of_int x :: 8 word) = x"
    using r by (simp add: uint_word_of_int take_bit_int_eq_self)
  then show ?thesis unfolding w by (simp add: map_idI)
qed

lemma to_bytes_length: "to_bytes xs = Inr ws \<Longrightarrow> length ws = length xs"
  by (auto simp: to_bytes_def split: if_splits)

lemma to_bytes_append:
  "to_bytes xs = Inr ws \<Longrightarrow> to_bytes ys = Inr vs \<Longrightarrow> to_bytes (xs @ ys) = Inr (ws @ vs)"
  by (auto simp: to_bytes_def split: if_splits)

lemma crc_hi_range: "0 \<le> drop_bit 8 (crc16 data) \<and> drop_bit 8 (crc16 data) < 256"
  using crc16_range [of data] by (auto simp add: drop_bit_eq_div)

lemma crc_lo_range: "0 \<le> (crc16 data AND 0xFF) \<and> (crc16 data AND 0xFF) < 256"
proof -
  have "take_bit 8 (crc16 data) < 2 ^ 8" by (rule take_bit_int_less_exp)
  then show ?thesis unfolding mask8 by (simp flip: take_bit_eq_mask)
qed

lemma to_bytes_trailer:
  "to_bytes [drop_bit 8 (crc16 data), crc16 data AND 0xFF, TERMINATOR] =
     Inr [word_of_int (drop_bit 8 (crc16 data)), word_of_int (crc16 data AND 0xFF), 0x24]"
  using crc_hi_range [of data] crc_lo_range [of data]
  by (simp add: to_bytes_def TERMINATOR_def)

lemma py_get_nonneg: "0 \<le> i \<Longrightarrow> nat i < length xs \<Longrightarrow> py_get xs i = Inr (xs ! nat i)"
  by (auto simp: py_get_def Let_def)

lemma send_packet_bytes:
  assumes "to_bytes payload = Inr data"
  shows "payload_after (send_packet pk lk address payload w) =
           payload @ [drop_bit 8 (crc16 data), crc16 data AND 0xFF, TERMINATOR]"
    and "handed_to_link (send_packet pk lk address payload w) =
           [(address, data @ [word_of_int (drop_bit 8 (crc16 data)), word_of_int (crc16 data AND 0xFF), 0x24])]"
proof -
  have fr: "to_bytes (payload @ [drop_bit 8 (crc16 data), crc16 data AND 0xFF, TERMINATOR]) =
     Inr (data @ [word_of_int (drop_bit 8 (crc16 data)), word_of_int (crc16 data AND 0xFF), 0x24])"
    by (rule to_bytes_append [OF assms to_bytes_trailer])
  show "payload_after (send_packet pk lk address payload w) =
           payload @ [drop_bit 8 (crc16 data), crc16 data AND 0xFF, TERMINATOR]"
    by (simp add: send_packet_def assms Let_def fr split: sum.splits)
  show "handed_to_link (send_packet pk lk address payload w) =
           [(address, data @ [word_of_int (drop_bit 8 (crc16 data)), word_of_int (crc16 data AND 0xFF), 0x24])]"
    by (simp add: send_packet_def assms Let_def fr split: sum.splits)
qed

subsection \<open>\<^verbatim>\<open>receive\<close> on a frame built by \<^verbatim>\<open>send_packet\<close>\<close>

lemma py_slice0_append_exact: "py_slice0 (xs @ ys) (int (length xs)) = xs"
  by (simp add: py_slice0_def)

lemma py_get_last: "py_get (xs @ [x]) (- 1) = Inr x"
  by (simp add: py_get_def Let_def)

lemma split_join_crc: "push_bit 8 (drop_bit 8 (crc16 d)) OR (crc16 d AND 0xFF) = crc16 d"
  using crc16_range [of d] by (simp add: split_join)

lemma uint_byte: "0 \<le> x \<Longrightarrow> x < 256 \<Longrightarrow> uint (word_of_int x :: 8 word) = x"
  by (simp add: uint_word_of_int take_bit_int_eq_self)

lemma receive_of_frame:
  assumes B: "to_bytes B = Inr data"
    and len: "2 \<le> length B"
    and ver: "ProtocolVersion_has_value (B ! 0)"
    and kind: "Packet_has_value (B ! 1)"
    and sid: "packet_info ''sender_id'' = Some sender"
  defines "frame \<equiv> data @ [word_of_int (drop_bit 8 (crc16 data)), word_of_int (crc16 data AND 0xFF), 0x24]"
  shows "receive Packet_has_value version frame (int (length frame)) packet_info =
           Inr (Forwarded B (int (length B)) sender version)"
proof -
  let ?hi = "drop_bit 8 (crc16 data)" and ?lo = "crc16 data AND 0xFF"
  have mB: "map uint data = B" by (rule to_bytes_Inr [OF B])
  have lB: "length data = length B" by (rule to_bytes_length [OF B])
  have raw: "map uint frame = B @ [?hi, ?lo, TERMINATOR]"
    using crc_hi_range [of data] crc_lo_range [of data]
    by (simp add: frame_def mB uint_byte TERMINATOR_def)
  have lf: "int (length frame) - 3 = int (length B)" "int (length frame) - 2 = int (length B) + 1"
    by (simp_all add: frame_def lB)
  have g0: "py_get (B @ [?hi, ?lo, TERMINATOR]) 0 = Inr (B ! 0)"
    using len by (auto simp add: py_get_def Let_def nth_append)
  have g1: "py_get (B @ [?hi, ?lo, TERMINATOR]) 1 = Inr (B ! 1)"
    using len by (simp add: py_get_def Let_def nth_append)
  have gh: "py_get (B @ [?hi, ?lo, TERMINATOR]) (int (length B)) = Inr ?hi"
    by (simp add: py_get_def Let_def nth_append)
  have gl: "py_get (B @ [?hi, ?lo, TERMINATOR]) (int (length B) + 1) = Inr ?lo"
    by (simp add: py_get_def Let_def nth_append nat_add_distrib)
  have gt: "py_get (B @ [?hi, ?lo, TERMINATOR]) (- 1) = Inr TERMINATOR"
    using py_get_last [of "B @ [?hi, ?lo]" TERMINATOR] by simp
  have sl: "py_slice0 (B @ [?hi, ?lo, TERMINATOR]) (int (length B)) = B"
    by (rule py_slice0_append_exact)
  have p1: "py_get B 1 = Inr (B ! 1)"
    using len by (simp add: py_get_def Let_def)
  show ?thesis
    unfolding receive_def sid raw Let_def lf
    by (simp only: option.case g0 g1 gh gl gt sl p1 B sum.case ver kind split_join_crc if_False if_True not_True_eq_False not_not refl)
qed

subsection \<open>The ack-wait loop\<close>

lemma ack_wait_True_if:
  assumes "\<forall>i. k \<le> i \<and> i \<le> k + d \<longrightarrow> link_clock lk (Suc i) - t0 \<le> w"
    and "\<forall>i. k \<le> i \<and> i < k + d \<longrightarrow> (\<exists>r. link_loop lk i = Inr r \<and> snd r \<noteq> PJON_ACK lk)"
    and "\<exists>r. link_loop lk (k + d) = Inr r \<and> snd r = PJON_ACK lk"
  shows "ack_wait lk t0 w k = Some (Inr True)"
  using assms
proof (induction d arbitrary: k)
  case 0
  then show ?case by (subst ack_wait.simps) auto
next
  case (Suc d)
  have c: "link_clock lk (Suc k) - t0 \<le> w" using Suc.prems(1) by simp
  obtain r where r: "link_loop lk k = Inr r" "snd r \<noteq> PJON_ACK lk"
    using Suc.prems(2) by auto
  have "ack_wait lk t0 w (Suc k) = Some (Inr True)"
    by (rule Suc.IH) (use Suc.prems in auto)
  then show ?case by (subst ack_wait.simps) (simp add: c r)
qed

lemma ack_wait_True_only_if:
  assumes a: "ack_wait lk t0 w k = Some y"
  shows "y = Inr True \<longrightarrow>
     (\<exists>d. (\<forall>i. k \<le> i \<and> i \<le> k + d \<longrightarrow> link_clock lk (Suc i) - t0 \<le> w) \<and>
          (\<forall>i. k \<le> i \<and> i < k + d \<longrightarrow> (\<exists>r. link_loop lk i = Inr r \<and> snd r \<noteq> PJON_ACK lk)) \<and>
          (\<exists>r. link_loop lk (k + d) = Inr r \<and> snd r = PJON_ACK lk))"
proof (rule ack_wait.raw_induct [where P = "\<lambda>lk t0 w k y. y = Inr True \<longrightarrow>
     (\<exists>d. (\<forall>i. k \<le> i \<and> i \<le> k + d \<longrightarrow> link_clock lk (Suc i) - t0 \<le> w) \<and>
          (\<forall>i. k \<le> i \<and> i < k + d \<longrightarrow> (\<exists>r. link_loop lk i = Inr r \<and> snd r \<noteq> PJON_ACK lk)) \<and>
          (\<exists>r. link_loop lk (k + d) = Inr r \<and> snd r = PJON_ACK lk))", OF _ a], goal_cases)
  case (1 f lk t0 w k y)
  show ?case
  proof
    assume y: "y = Inr True"
    have c: "link_clock lk (Suc k) - t0 \<le> w"
      using 1(2) y by (auto split: if_splits)
    then obtain r where r: "link_loop lk k = Inr r"
      using 1(2) y by (auto split: if_splits sum.splits)
    show "\<exists>d. (\<forall>i. k \<le> i \<and> i \<le> k + d \<longrightarrow> link_clock lk (Suc i) - t0 \<le> w) \<and>
          (\<forall>i. k \<le> i \<and> i < k + d \<longrightarrow> (\<exists>r. link_loop lk i = Inr r \<and> snd r \<noteq> PJON_ACK lk)) \<and>
          (\<exists>r. link_loop lk (k + d) = Inr r \<and> snd r = PJON_ACK lk)"
    proof (cases "snd r = PJON_ACK lk")
      case True
      show ?thesis
        by (rule exI [of _ 0]) (use c r True in auto)
    next
      case False
      then have "f lk t0 w (Suc k) = Some y"
        using 1(2) c r by simp
      from 1(1) [OF this] y obtain d where
        d: "\<forall>i. Suc k \<le> i \<and> i \<le> Suc k + d \<longrightarrow> link_clock lk (Suc i) - t0 \<le> w"
           "\<forall>i. Suc k \<le> i \<and> i < Suc k + d \<longrightarrow> (\<exists>r. link_loop lk i = Inr r \<and> snd r \<noteq> PJON_ACK lk)"
           "\<exists>r. link_loop lk (Suc k + d) = Inr r \<and> snd r = PJON_ACK lk"
        by blast
      have a: "\<And>i. k \<le> i \<Longrightarrow> i = k \<or> Suc k \<le> i" by arith
      show ?thesis
      proof (rule exI [of _ "Suc d"], intro conjI allI impI)
        fix i assume "k \<le> i \<and> i \<le> k + Suc d"
        then show "link_clock lk (Suc i) - t0 \<le> w"
          using a [of i] c d(1) by auto
      next
        fix i assume "k \<le> i \<and> i < k + Suc d"
        then show "\<exists>r. link_loop lk i = Inr r \<and> snd r \<noteq> PJON_ACK lk"
          using a [of i] r False d(2) by (cases r) auto
      next
        show "\<exists>r. link_loop lk (k + Suc d) = Inr r \<and> snd r = PJON_ACK lk"
          using d(3) by simp
      qed
    qed
  qed
qed

subsection \<open>What \<^verbatim>\<open>send_packet\<close> returns and what \<^verbatim>\<open>receive\<close> checks\<close>



lemma receive_no_sender: "packet_info ''sender_id'' = None \<Longrightarrow>
  receive Packet_has_value version received_payload len packet_info = Inl ValueError"
  by (simp add: receive_def)

lemma receive_short:
  "packet_info ''sender_id'' = Some a \<Longrightarrow>
   receive Packet_has_value version [] len packet_info = Inl IndexError"
  "packet_info ''sender_id'' = Some a \<Longrightarrow>
   receive Packet_has_value version [word_of_int ProtocolVersion_V1] len packet_info = Inl IndexError"
  by (simp_all add: receive_def py_get_def ProtocolVersion_has_value_def ProtocolVersion_V1_def)

lemma receive_Forwarded_checks:
  assumes "receive Packet_has_value version received_payload len packet_info = Inr (Forwarded payload l a v)"
  shows "\<exists>b0 b1 hi lo t.
           py_get (map uint received_payload) 0 = Inr b0 \<and> ProtocolVersion_has_value b0 \<and>
           py_get (map uint received_payload) 1 = Inr b1 \<and> Packet_has_value b1 \<and>
           py_get (map uint received_payload) (len - 3) = Inr hi \<and>
           py_get (map uint received_payload) (len - 2) = Inr lo \<and>
           crc16 (py_slice0 received_payload (len - 3)) = push_bit 8 hi OR lo \<and>
           py_get (map uint received_payload) (- 1) = Inr t \<and> t = TERMINATOR \<and>
           payload = py_slice0 (map uint received_payload) (len - 3)"
proof -
  have sl: "py_slice0 (map uint received_payload) (len - 3) = map uint (py_slice0 received_payload (len - 3))"
    by (simp add: py_slice0_def take_map)
  show ?thesis
    using assms unfolding receive_def Let_def sl to_bytes_map_uint
    by (auto split: option.splits sum.splits if_splits)
qed

lemma receive_Dropped_checks:
  assumes "receive Packet_has_value version received_payload len packet_info = Inr (Dropped msg)"
  shows "\<not> (\<exists>b0 b1 hi lo.
           py_get (map uint received_payload) 0 = Inr b0 \<and> ProtocolVersion_has_value b0 \<and>
           py_get (map uint received_payload) 1 = Inr b1 \<and> Packet_has_value b1 \<and>
           py_get (map uint received_payload) (len - 3) = Inr hi \<and>
           py_get (map uint received_payload) (len - 2) = Inr lo \<and>
           crc16 (py_slice0 received_payload (len - 3)) = push_bit 8 hi OR lo \<and>
           py_get (map uint received_payload) (- 1) = Inr TERMINATOR)"
proof -
  have sl: "py_slice0 (map uint received_payload) (len - 3) = map uint (py_slice0 received_payload (len - 3))"
    by (simp add: py_slice0_def take_map)
  show ?thesis
    using assms unfolding receive_def Let_def sl to_bytes_map_uint
    by (auto split: option.splits sum.splits if_splits)
qed

lemma crc_S1_bytes:
  "drop_bit 8 (crc16 [0x01, 0x04, 0x01]) = 0xF9" "crc16 [0x01, 0x04, 0x01] AND 0xFF = 0xEA"
  unfolding crc16_S1
  by (simp_all add: drop_bit_eq_div mask8 take_bit_eq_mod flip: take_bit_eq_mask)

lemma to_bytes_S1: "to_bytes [0x01, 0x04, 0x01] = Inr [0x01, 0x04, 0x01]"
  by (simp add: to_bytes_def)

lemma ack_wait_True_iff:
  "ack_wait lk t0 w 0 = Some (Inr True) \<longleftrightarrow>
     (\<exists>n. (\<forall>i\<le>n. link_clock lk (Suc i) - t0 \<le> w) \<and>
          (\<forall>i<n. \<not> isl (link_loop lk i)) \<and>
          (\<exists>r. link_loop lk n = Inr r \<and> snd r = PJON_ACK lk))"
  (is "?L \<longleftrightarrow> ?R")
proof
  assume ?L
  from ack_wait_True_only_if [OF this] have
    "\<exists>d. (\<forall>i. 0 \<le> i \<and> i \<le> 0 + d \<longrightarrow> link_clock lk (Suc i) - t0 \<le> w) \<and>
       (\<forall>i. 0 \<le> i \<and> i < 0 + d \<longrightarrow> (\<exists>r. link_loop lk i = Inr r \<and> snd r \<noteq> PJON_ACK lk)) \<and>
       (\<exists>r. link_loop lk (0 + d) = Inr r \<and> snd r = PJON_ACK lk)"
    by (rule mp) (rule refl)
  then obtain d where
    dd: "(\<forall>i. 0 \<le> i \<and> i \<le> 0 + d \<longrightarrow> link_clock lk (Suc i) - t0 \<le> w) \<and>
       (\<forall>i. 0 \<le> i \<and> i < 0 + d \<longrightarrow> (\<exists>r. link_loop lk i = Inr r \<and> snd r \<noteq> PJON_ACK lk)) \<and>
       (\<exists>r. link_loop lk (0 + d) = Inr r \<and> snd r = PJON_ACK lk)" ..
  note d = conjunct1 [OF dd] conjunct1 [OF conjunct2 [OF dd]] conjunct2 [OF conjunct2 [OF dd]]
  show ?R
  proof (rule exI [of _ d], intro conjI allI impI)
    fix i assume "i \<le> d" then show "link_clock lk (Suc i) - t0 \<le> w" using d(1) by simp
  next
    fix i assume "i < d"
    then obtain r where "link_loop lk i = Inr r" using d(2) by auto
    then show "\<not> isl (link_loop lk i)" by simp
  next
    show "\<exists>r. link_loop lk d = Inr r \<and> snd r = PJON_ACK lk" using d(3) by simp
  qed
next
  assume ?R
  then obtain n where n: "\<forall>i\<le>n. link_clock lk (Suc i) - t0 \<le> w"
    "\<forall>i<n. \<not> isl (link_loop lk i)" "\<exists>r. link_loop lk n = Inr r \<and> snd r = PJON_ACK lk"
    by blast
  define m where "m = (LEAST m. \<exists>r. link_loop lk m = Inr r \<and> snd r = PJON_ACK lk)"
  have m1: "\<exists>r. link_loop lk m = Inr r \<and> snd r = PJON_ACK lk"
    unfolding m_def by (rule LeastI_ex) (use n(3) in blast)
  have m2: "m \<le> n"
    unfolding m_def by (rule Least_le) (rule n(3))
  have m3: "\<And>i. i < m \<Longrightarrow> \<not> (\<exists>r. link_loop lk i = Inr r \<and> snd r = PJON_ACK lk)"
    unfolding m_def by (rule not_less_Least)
  show ?L
  proof (rule ack_wait_True_if [where d = m])
    show "\<forall>i. 0 \<le> i \<and> i \<le> 0 + m \<longrightarrow> link_clock lk (Suc i) - t0 \<le> w"
      using n(1) m2 by auto
    show "\<forall>i. 0 \<le> i \<and> i < 0 + m \<longrightarrow> (\<exists>r. link_loop lk i = Inr r \<and> snd r \<noteq> PJON_ACK lk)"
    proof (intro allI impI)
      fix i assume "0 \<le> i \<and> i < 0 + m"
      then have i: "i < m" by simp
      then have "\<not> isl (link_loop lk i)" using n(2) m2 by auto
      then obtain r where r: "link_loop lk i = Inr r" by (cases "link_loop lk i") auto
      with m3 [OF i] show "\<exists>r. link_loop lk i = Inr r \<and> snd r \<noteq> PJON_ACK lk" by auto
    qed
    show "\<exists>r. link_loop lk (0 + m) = Inr r \<and> snd r = PJON_ACK lk" using m1 by simp
  qed
qed

lemma ack_wait_False_if:
  assumes "\<forall>i. k \<le> i \<and> i < k + d \<longrightarrow> link_clock lk (Suc i) - t0 \<le> w"
    and "\<forall>i. k \<le> i \<and> i < k + d \<longrightarrow> (\<exists>r. link_loop lk i = Inr r \<and> snd r \<noteq> PJON_ACK lk)"
    and "\<not> link_clock lk (Suc (k + d)) - t0 \<le> w"
  shows "ack_wait lk t0 w k = Some (Inr False)"
  using assms
proof (induction d arbitrary: k)
  case 0
  then show ?case by (subst ack_wait.simps) auto
next
  case (Suc d)
  have c: "link_clock lk (Suc k) - t0 \<le> w" using Suc.prems(1) by simp
  obtain r where r: "link_loop lk k = Inr r" "snd r \<noteq> PJON_ACK lk"
    using Suc.prems(2) by auto
  have "ack_wait lk t0 w (Suc k) = Some (Inr False)"
    by (rule Suc.IH) (use Suc.prems in auto)
  then show ?case by (subst ack_wait.simps) (simp add: c r)
qed

lemma ack_wait_False_only_if:
  assumes a: "ack_wait lk t0 w k = Some y"
  shows "y = Inr False \<longrightarrow>
     (\<exists>d. (\<forall>i. k \<le> i \<and> i < k + d \<longrightarrow> link_clock lk (Suc i) - t0 \<le> w) \<and>
          (\<forall>i. k \<le> i \<and> i < k + d \<longrightarrow> (\<exists>r. link_loop lk i = Inr r \<and> snd r \<noteq> PJON_ACK lk)) \<and>
          \<not> link_clock lk (Suc (k + d)) - t0 \<le> w)"
proof (rule ack_wait.raw_induct [where P = "\<lambda>lk t0 w k y. y = Inr False \<longrightarrow>
     (\<exists>d. (\<forall>i. k \<le> i \<and> i < k + d \<longrightarrow> link_clock lk (Suc i) - t0 \<le> w) \<and>
          (\<forall>i. k \<le> i \<and> i < k + d \<longrightarrow> (\<exists>r. link_loop lk i = Inr r \<and> snd r \<noteq> PJON_ACK lk)) \<and>
          \<not> link_clock lk (Suc (k + d)) - t0 \<le> w)", OF _ a], goal_cases)
  case (1 f lk t0 w k y)
  show ?case
  proof
    assume y: "y = Inr False"
    show "\<exists>d. (\<forall>i. k \<le> i \<and> i < k + d \<longrightarrow> link_clock lk (Suc i) - t0 \<le> w) \<and>
          (\<forall>i. k \<le> i \<and> i < k + d \<longrightarrow> (\<exists>r. link_loop lk i = Inr r \<and> snd r \<noteq> PJON_ACK lk)) \<and>
          \<not> link_clock lk (Suc (k + d)) - t0 \<le> w"
    proof (cases "link_clock lk (Suc k) - t0 \<le> w")
      case False
      show ?thesis by (rule exI [of _ 0]) (use False in auto)
    next
      case c: True
      then obtain r where r: "link_loop lk k = Inr r"
        using 1(2) y by (auto split: if_splits sum.splits)
      have nack: "snd r \<noteq> PJON_ACK lk"
        using 1(2) y c r by (auto split: if_splits)
      then have fy: "f lk t0 w (Suc k) = Some y"
        using 1(2) c r by simp
      have "\<exists>d. (\<forall>i. Suc k \<le> i \<and> i < Suc k + d \<longrightarrow> link_clock lk (Suc i) - t0 \<le> w) \<and>
           (\<forall>i. Suc k \<le> i \<and> i < Suc k + d \<longrightarrow> (\<exists>r. link_loop lk i = Inr r \<and> snd r \<noteq> PJON_ACK lk)) \<and>
           \<not> link_clock lk (Suc (Suc k + d)) - t0 \<le> w"
        by (rule mp [OF 1(1) [OF fy] y])
      then obtain d where
        dd: "(\<forall>i. Suc k \<le> i \<and> i < Suc k + d \<longrightarrow> link_clock lk (Suc i) - t0 \<le> w) \<and>
           (\<forall>i. Suc k \<le> i \<and> i < Suc k + d \<longrightarrow> (\<exists>r. link_loop lk i = Inr r \<and> snd r \<noteq> PJON_ACK lk)) \<and>
           \<not> link_clock lk (Suc (Suc k + d)) - t0 \<le> w" ..
      note d = conjunct1 [OF dd] conjunct1 [OF conjunct2 [OF dd]] conjunct2 [OF conjunct2 [OF dd]]
      have a: "\<And>i. k \<le> i \<Longrightarrow> i = k \<or> Suc k \<le> i" by arith
      show ?thesis
      proof (rule exI [of _ "Suc d"], intro conjI allI impI)
        fix i assume "k \<le> i \<and> i < k + Suc d"
        then show "link_clock lk (Suc i) - t0 \<le> w"
          using a [of i] c d(1) by auto
      next
        fix i assume "k \<le> i \<and> i < k + Suc d"
        then show "\<exists>r. link_loop lk i = Inr r \<and> snd r \<noteq> PJON_ACK lk"
          using a [of i] r nack d(2) by (cases r) auto
      next
        show "\<not> link_clock lk (Suc (k + Suc d)) - t0 \<le> w"
          using d(3) by simp
      qed
    qed
  qed
qed

lemma ack_wait_False_iff:
  "ack_wait lk t0 w 0 = Some (Inr False) \<longleftrightarrow>
     (\<exists>n. \<not> link_clock lk (Suc n) - t0 \<le> w \<and>
          (\<forall>i<n. link_clock lk (Suc i) - t0 \<le> w \<and>
                 (\<exists>r. link_loop lk i = Inr r \<and> snd r \<noteq> PJON_ACK lk)))"
  (is "?L \<longleftrightarrow> ?R")
proof
  assume ?L
  from ack_wait_False_only_if [OF this] have
    "\<exists>d. (\<forall>i. 0 \<le> i \<and> i < 0 + d \<longrightarrow> link_clock lk (Suc i) - t0 \<le> w) \<and>
          (\<forall>i. 0 \<le> i \<and> i < 0 + d \<longrightarrow> (\<exists>r. link_loop lk i = Inr r \<and> snd r \<noteq> PJON_ACK lk)) \<and>
          \<not> link_clock lk (Suc (0 + d)) - t0 \<le> w"
    by (rule mp) (rule refl)
  then obtain d where
    dd: "(\<forall>i. 0 \<le> i \<and> i < 0 + d \<longrightarrow> link_clock lk (Suc i) - t0 \<le> w) \<and>
          (\<forall>i. 0 \<le> i \<and> i < 0 + d \<longrightarrow> (\<exists>r. link_loop lk i = Inr r \<and> snd r \<noteq> PJON_ACK lk)) \<and>
          \<not> link_clock lk (Suc (0 + d)) - t0 \<le> w" ..
  note d = conjunct1 [OF dd] conjunct1 [OF conjunct2 [OF dd]] conjunct2 [OF conjunct2 [OF dd]]
  show ?R
  proof (rule exI [of _ d], intro conjI allI impI)
    show "\<not> link_clock lk (Suc d) - t0 \<le> w" using d(3) by simp
  next
    fix i assume "i < d" then show "link_clock lk (Suc i) - t0 \<le> w" using d(1) by simp
  next
    fix i assume "i < d"
    then show "\<exists>r. link_loop lk i = Inr r \<and> snd r \<noteq> PJON_ACK lk" using d(2) by simp
  qed
next
  assume ?R
  then obtain n where n: "\<not> link_clock lk (Suc n) - t0 \<le> w"
    "\<forall>i<n. link_clock lk (Suc i) - t0 \<le> w \<and> (\<exists>r. link_loop lk i = Inr r \<and> snd r \<noteq> PJON_ACK lk)"
    by blast
  show ?L
    by (rule ack_wait_False_if [where d = n]) (use n in auto)
qed

lemma ack_wait_raise_if:
  assumes "\<forall>i. k \<le> i \<and> i \<le> k + d \<longrightarrow> link_clock lk (Suc i) - t0 \<le> w"
    and "\<forall>i. k \<le> i \<and> i < k + d \<longrightarrow> (\<exists>r. link_loop lk i = Inr r \<and> snd r \<noteq> PJON_ACK lk)"
    and "link_loop lk (k + d) = Inl err"
  shows "ack_wait lk t0 w k = Some (Inl err)"
  using assms
proof (induction d arbitrary: k)
  case 0
  then show ?case by (subst ack_wait.simps) auto
next
  case (Suc d)
  have c: "link_clock lk (Suc k) - t0 \<le> w" using Suc.prems(1) by simp
  obtain r where r: "link_loop lk k = Inr r" "snd r \<noteq> PJON_ACK lk"
    using Suc.prems(2) by auto
  have "ack_wait lk t0 w (Suc k) = Some (Inl err)"
    by (rule Suc.IH) (use Suc.prems in auto)
  then show ?case by (subst ack_wait.simps) (simp add: c r)
qed

lemma ack_wait_raise_only_if:
  assumes a: "ack_wait lk t0 w k = Some y"
  shows "y = Inl err \<longrightarrow>
     (\<exists>d. (\<forall>i. k \<le> i \<and> i \<le> k + d \<longrightarrow> link_clock lk (Suc i) - t0 \<le> w) \<and>
          (\<forall>i. k \<le> i \<and> i < k + d \<longrightarrow> (\<exists>r. link_loop lk i = Inr r \<and> snd r \<noteq> PJON_ACK lk)) \<and>
          link_loop lk (k + d) = Inl err)"
proof (rule ack_wait.raw_induct [where P = "\<lambda>lk t0 w k y. y = Inl err \<longrightarrow>
     (\<exists>d. (\<forall>i. k \<le> i \<and> i \<le> k + d \<longrightarrow> link_clock lk (Suc i) - t0 \<le> w) \<and>
          (\<forall>i. k \<le> i \<and> i < k + d \<longrightarrow> (\<exists>r. link_loop lk i = Inr r \<and> snd r \<noteq> PJON_ACK lk)) \<and>
          link_loop lk (k + d) = Inl err)", OF _ a], goal_cases)
  case (1 f lk t0 w k y)
  show ?case
  proof
    assume y: "y = Inl err"
    have c: "link_clock lk (Suc k) - t0 \<le> w"
      using 1(2) y by (auto split: if_splits)
    show "\<exists>d. (\<forall>i. k \<le> i \<and> i \<le> k + d \<longrightarrow> link_clock lk (Suc i) - t0 \<le> w) \<and>
          (\<forall>i. k \<le> i \<and> i < k + d \<longrightarrow> (\<exists>r. link_loop lk i = Inr r \<and> snd r \<noteq> PJON_ACK lk)) \<and>
          link_loop lk (k + d) = Inl err"
    proof (cases "link_loop lk k")
      case (Inl e')
      then have "e' = err" using 1(2) y c by simp
      show ?thesis
        by (rule exI [of _ 0]) (use c Inl \<open>e' = err\<close> in auto)
    next
      case (Inr r)
      have nack: "snd r \<noteq> PJON_ACK lk"
        using 1(2) y c Inr by (auto split: if_splits)
      then have fy: "f lk t0 w (Suc k) = Some y"
        using 1(2) c Inr by simp
      have "\<exists>d. (\<forall>i. Suc k \<le> i \<and> i \<le> Suc k + d \<longrightarrow> link_clock lk (Suc i) - t0 \<le> w) \<and>
           (\<forall>i. Suc k \<le> i \<and> i < Suc k + d \<longrightarrow> (\<exists>r. link_loop lk i = Inr r \<and> snd r \<noteq> PJON_ACK lk)) \<and>
           link_loop lk (Suc k + d) = Inl err"
        by (rule mp [OF 1(1) [OF fy] y])
      then obtain d where
        dd: "(\<forall>i. Suc k \<le> i \<and> i \<le> Suc k + d \<longrightarrow> link_clock lk (Suc i) - t0 \<le> w) \<and>
           (\<forall>i. Suc k \<le> i \<and> i < Suc k + d \<longrightarrow> (\<exists>r. link_loop lk i = Inr r \<and> snd r \<noteq> PJON_ACK lk)) \<and>
           link_loop lk (Suc k + d) = Inl err" ..
      note d = conjunct1 [OF dd] conjunct1 [OF conjunct2 [OF dd]] conjunct2 [OF conjunct2 [OF dd]]
      have a: "\<And>i. k \<le> i \<Longrightarrow> i = k \<or> Suc k \<le> i" by arith
      show ?thesis
      proof (rule exI [of _ "Suc d"], intro conjI allI impI)
        fix i assume "k \<le> i \<and> i \<le> k + Suc d"
        then show "link_clock lk (Suc i) - t0 \<le> w"
          using a [of i] c d(1) by auto
      next
        fix i assume "k \<le> i \<and> i < k + Suc d"
        then show "\<exists>r. link_loop lk i = Inr r \<and> snd r \<noteq> PJON_ACK lk"
          using a [of i] Inr nack d(2) by (cases r) auto
      next
        show "link_loop lk (k + Suc d) = Inl err"
          using d(3) by simp
      qed
    qed
  qed
qed

lemma ack_wait_raise_iff:
  "ack_wait lk t0 w 0 = Some (Inl err) \<longleftrightarrow>
     (\<exists>n. (\<forall>i\<le>n. link_clock lk (Suc i) - t0 \<le> w) \<and>
          (\<forall>i<n. \<exists>r. link_loop lk i = Inr r \<and> snd r \<noteq> PJON_ACK lk) \<and>
          link_loop lk n = Inl err)"
  (is "?L \<longleftrightarrow> ?R")
proof
  assume ?L
  from ack_wait_raise_only_if [OF this, of err] have
    "\<exists>d. (\<forall>i. 0 \<le> i \<and> i \<le> 0 + d \<longrightarrow> link_clock lk (Suc i) - t0 \<le> w) \<and>
          (\<forall>i. 0 \<le> i \<and> i < 0 + d \<longrightarrow> (\<exists>r. link_loop lk i = Inr r \<and> snd r \<noteq> PJON_ACK lk)) \<and>
          link_loop lk (0 + d) = Inl err"
    by (rule mp) (rule refl)
  then obtain d where
    dd: "(\<forall>i. 0 \<le> i \<and> i \<le> 0 + d \<longrightarrow> link_clock lk (Suc i) - t0 \<le> w) \<and>
          (\<forall>i. 0 \<le> i \<and> i < 0 + d \<longrightarrow> (\<exists>r. link_loop lk i = Inr r \<and> snd r \<noteq> PJON_ACK lk)) \<and>
          link_loop lk (0 + d) = Inl err" ..
  note d = conjunct1 [OF dd] conjunct1 [OF conjunct2 [OF dd]] conjunct2 [OF conjunct2 [OF dd]]
  show ?R
  proof (rule exI [of _ d], intro conjI allI impI)
    fix i assume "i \<le> d" then show "link_clock lk (Suc i) - t0 \<le> w" using d(1) by simp
  next
    fix i assume "i < d"
    then show "\<exists>r. link_loop lk i = Inr r \<and> snd r \<noteq> PJON_ACK lk" using d(2) by simp
  next
    show "link_loop lk d = Inl err" using d(3) by simp
  qed
next
  assume ?R
  then obtain n where n: "\<forall>i\<le>n. link_clock lk (Suc i) - t0 \<le> w"
    "\<forall>i<n. \<exists>r. link_loop lk i = Inr r \<and> snd r \<noteq> PJON_ACK lk"
    "link_loop lk n = Inl err"
    by blast
  show ?L
    by (rule ack_wait_raise_if [where d = n]) (use n in auto)
qed


section \<open>Properties of pairing\<close>

subsection \<open>Choosing the next register\<close>

lemma find_Some_first:
  "find P xs = Some x \<Longrightarrow> \<exists>i < length xs. xs ! i = x \<and> P x \<and> (\<forall>j < i. \<not> P (xs ! j))"
  by (auto simp: find_Some_iff)

lemma RegisterType_cases: "k = INPUT \<or> k = OUTPUT \<or> k = ATTRIBUTE \<or> k = SETTING"
  by (cases k) auto

subsection \<open>Configuring registers only changes the register set\<close>

lemma only_registersI: "(\<And>s. f s = s\<lparr>pairing_device_registers := g s\<rparr>) \<Longrightarrow> only_registers f"
  unfolding only_registers_def by blast

lemma only_registers_id: "only_registers (\<lambda>s. s)"
  unfolding only_registers_def
proof
  fix s :: ApiV1Pairing
  have "s = s\<lparr>pairing_device_registers := pairing_device_registers s\<rparr>" by simp
  then show "\<exists>regs. s = s\<lparr>pairing_device_registers := regs\<rparr>" by blast
qed

lemma only_registers_comp:
  assumes "only_registers f" "only_registers g"
  shows "only_registers (\<lambda>s. f (g s))"
  unfolding only_registers_def
proof
  fix s
  obtain r1 where r1: "g s = s\<lparr>pairing_device_registers := r1\<rparr>"
    using assms(2) unfolding only_registers_def by blast
  obtain r2 where r2: "f (g s) = (g s)\<lparr>pairing_device_registers := r2\<rparr>"
    using assms(1) unfolding only_registers_def by blast
  have "f (g s) = (g s)\<lparr>pairing_device_registers := r2\<rparr>" by (rule r2)
  also have "\<dots> = s\<lparr>pairing_device_registers := r2\<rparr>" by (simp add: r1)
  finally have "f (g s) = s\<lparr>pairing_device_registers := r2\<rparr>" .
  then show "\<exists>regs. f (g s) = s\<lparr>pairing_device_registers := regs\<rparr>" by blast
qed

lemma only_registers_fold:
  assumes "\<And>x. only_registers (f x)"
  shows "only_registers (fold f xs)"
proof (induction xs)
  case Nil
  show ?case using only_registers_id by (simp add: id_def)
next
  case (Cons x xs)
  have "only_registers (\<lambda>s. fold f xs (f x s))"
    by (rule only_registers_comp [OF Cons.IH assms])
  then show ?case by (simp add: comp_def)
qed

lemma only_registers_append:
  "only_registers (append_input_register i a t k)"
  "only_registers (append_output_register i a t k)"
  "only_registers (append_attribute i a k n t st q)"
  "only_registers (append_setting i a n t)"
  by (rule only_registersI, simp add: append_input_register_def,
      rule only_registersI, simp add: append_output_register_def,
      rule only_registersI, simp add: append_attribute_def,
      rule only_registersI, simp add: append_setting_def)

lemma only_registers_configure_register: "only_registers (configure_register e i t n)"
  unfolding only_registers_def
proof
  fix s
  show "\<exists>regs. configure_register e i t n s = s\<lparr>pairing_device_registers := regs\<rparr>"
    using only_registers_append(1,2) only_registers_id
    unfolding only_registers_def configure_register_def
    by (auto split: option.splits)
qed

lemma only_registers_configure_attribute: "only_registers (configure_attribute e i n)"
  unfolding only_registers_def
proof
  fix s
  show "\<exists>regs. configure_attribute e i n s = s\<lparr>pairing_device_registers := regs\<rparr>"
    using only_registers_append(3) only_registers_id
    unfolding only_registers_def configure_attribute_def
    by (auto split: option.splits)
qed

lemma only_registers_configure_setting: "only_registers (configure_setting e i n)"
  unfolding only_registers_def
proof
  fix s
  show "\<exists>regs. configure_setting e i n s = s\<lparr>pairing_device_registers := regs\<rparr>"
    using only_registers_append(4) only_registers_id
    unfolding only_registers_def configure_setting_def
    by (auto split: option.splits)
qed

lemma only_registers_configure_device: "only_registers (configure_device e d)"
proof -
  have a: "only_registers (configure_registers e (dev_id d) (dev_input_registers_size d) INPUT)"
    unfolding configure_registers_def
    by (rule only_registers_fold) (rule only_registers_configure_register)
  have b: "only_registers (configure_registers e (dev_id d) (dev_output_registers_size d) OUTPUT)"
    unfolding configure_registers_def
    by (rule only_registers_fold) (rule only_registers_configure_register)
  have c: "only_registers (configure_attributes e (dev_id d) (dev_attributes_registers_size d))"
    unfolding configure_attributes_def
    by (rule only_registers_fold) (rule only_registers_configure_attribute)
  have f: "only_registers (configure_settings e (dev_id d) (dev_settings_registers_size d))"
    unfolding configure_settings_def
    by (rule only_registers_fold) (rule only_registers_configure_setting)
  have "configure_device e d =
        (\<lambda>s. configure_settings e (dev_id d) (dev_settings_registers_size d)
          (configure_attributes e (dev_id d) (dev_attributes_registers_size d)
            (configure_registers e (dev_id d) (dev_output_registers_size d) OUTPUT
              (configure_registers e (dev_id d) (dev_input_registers_size d) INPUT s))))"
    by (rule ext) (simp add: configure_device_def)
  then show ?thesis
    using only_registers_comp [OF f only_registers_comp [OF c only_registers_comp [OF b a]]]
    by simp
qed

lemma configure_device_eq:
  "\<exists>regs. configure_device e d s = s\<lparr>pairing_device_registers := regs\<rparr>"
  using only_registers_configure_device unfolding only_registers_def by blast

subsection \<open>\<^verbatim>\<open>discover_device\<close>, case by case\<close>

lemma discover_device_Nil:
  "found_devices s = [] \<Longrightarrow> discover_device e s = disable (reset_device_pointers s)"
  by (subst discover_device.simps) (simp add: Let_def reset_device_pointers_def)

lemma discover_device_reset:
  "discover_device e (reset_device_pointers s) = discover_device e s"
proof -
  have "reset_device_pointers (reset_device_pointers s) = reset_device_pointers s"
    by (simp add: reset_device_pointers_def)
  then show ?thesis
    by (subst discover_device.simps, subst (2) discover_device.simps) (simp add: Let_def)
qed

lemma discover_device_skip:
  assumes "found_devices s = d # rest" "address_for e d = None"
  shows "discover_device e s = discover_device e (s\<lparr>found_devices := rest\<rparr>)"
proof -
  have f: "found_devices (reset_device_pointers s) = d # rest"
    using assms(1) by (simp add: reset_device_pointers_def)
  have "discover_device e s =
        discover_device e ((reset_device_pointers s)\<lparr>pairing_device := Some d, found_devices := rest,
                              attempts := 0, total_attempts := 0\<rparr>)"
    by (subst discover_device.simps) (simp add: Let_def f assms(2))
  also have "\<dots> = discover_device e (reset_device_pointers
                        ((reset_device_pointers s)\<lparr>pairing_device := Some d, found_devices := rest,
                              attempts := 0, total_attempts := 0\<rparr>))"
    by (simp only: discover_device_reset)
  also have "reset_device_pointers
                        ((reset_device_pointers s)\<lparr>pairing_device := Some d, found_devices := rest,
                              attempts := 0, total_attempts := 0\<rparr>)
             = reset_device_pointers (s\<lparr>found_devices := rest\<rparr>)"
    by (simp add: reset_device_pointers_def)
  finally show ?thesis by (simp only: discover_device_reset)
qed

lemma discover_device_take:
  assumes "found_devices s = d # rest" "address_for e d = Some a"
  shows "\<exists>regs calls.
           discover_device e s =
             (reset_device_pointers s)\<lparr>pairing_device := Some (d\<lparr>dev_address := a\<rparr>),
                found_devices := rest, pairing_device_registers := regs,
                set_state_calls := calls\<rparr>"
proof -
  have f: "found_devices (reset_device_pointers s) = d # rest"
    using assms(1) by (simp add: reset_device_pointers_def)
  let ?s1 = "(reset_device_pointers s)\<lparr>pairing_device := Some d, found_devices := rest,
               attempts := 0, total_attempts := 0, pairing_device := Some (d\<lparr>dev_address := a\<rparr>)\<rparr>"
  let ?s2 = "case devices_get_by_id e (dev_id d) of None \<Rightarrow> ?s1
             | Some device_record \<Rightarrow>
                 ?s1\<lparr>set_state_calls := set_state_calls ?s1 @ [(dr_id device_record, STATE_PAIRING)]\<rparr>"
  have d: "discover_device e s = configure_device e (d\<lparr>dev_address := a\<rparr>) ?s2"
    by (subst discover_device.simps) (simp add: Let_def f assms(2))
  obtain regs where r: "configure_device e (d\<lparr>dev_address := a\<rparr>) ?s2 = ?s2\<lparr>pairing_device_registers := regs\<rparr>"
    using configure_device_eq by blast
  have s2: "?s2 = (reset_device_pointers s)\<lparr>pairing_device := Some (d\<lparr>dev_address := a\<rparr>),
                found_devices := rest, set_state_calls := set_state_calls ?s2\<rparr>"
    by (simp add: reset_device_pointers_def split: option.splits)
  have "discover_device e s = ((reset_device_pointers s)\<lparr>pairing_device := Some (d\<lparr>dev_address := a\<rparr>),
                found_devices := rest, set_state_calls := set_state_calls ?s2\<rparr>)\<lparr>pairing_device_registers := regs\<rparr>"
    unfolding d r by (subst s2) (rule refl)
  then have "discover_device e s = (reset_device_pointers s)\<lparr>pairing_device := Some (d\<lparr>dev_address := a\<rparr>),
                found_devices := rest, pairing_device_registers := regs, set_state_calls := set_state_calls ?s2\<rparr>"
    by simp
  then show ?thesis by blast
qed


subsection \<open>What a send handler changes\<close>






lemma broadcast_write_address_fields:
  "pairing_device (broadcast_write_address_handler e d s) = pairing_device s"
  "found_devices (broadcast_write_address_handler e d s) = found_devices s"
  "pairing_enabled (broadcast_write_address_handler e d s) = pairing_enabled s"
  "broadcasting_search_finished (broadcast_write_address_handler e d s) = broadcasting_search_finished s"
  "client_id (broadcast_write_address_handler e d s) = client_id s"
  "pairing_cmd (broadcast_write_address_handler e d s) = pairing_cmd s"
  "total_attempts (broadcast_write_address_handler e d s) = total_attempts s + 1"
  by (simp_all add: broadcast_write_address_handler_def Let_def mark_waiting_def split: prod.splits)


lemma send_data_fields:
  "pairing_device (fst (send_data_to_device e data a s)) = pairing_device s"
  "found_devices (fst (send_data_to_device e data a s)) = found_devices s"
  "pairing_enabled (fst (send_data_to_device e data a s)) = pairing_enabled s"
  "broadcasting_search_finished (fst (send_data_to_device e data a s)) = broadcasting_search_finished s"
  "client_id (fst (send_data_to_device e data a s)) = client_id s"
  "pairing_cmd (fst (send_data_to_device e data a s)) = pairing_cmd s"
  "total_attempts (fst (send_data_to_device e data a s)) = total_attempts s + 1"
  by (simp_all add: send_data_to_device_def Let_def mark_waiting_def split: prod.splits)


lemma send_finalize_fields:
  "pairing_device (send_finalize_pairing_handler e d s) = pairing_device s"
  "found_devices (send_finalize_pairing_handler e d s) = found_devices s"
  "pairing_enabled (send_finalize_pairing_handler e d s) = pairing_enabled s"
  "broadcasting_search_finished (send_finalize_pairing_handler e d s) = broadcasting_search_finished s"
  "client_id (send_finalize_pairing_handler e d s) = client_id s"
  "pairing_cmd (send_finalize_pairing_handler e d s) = pairing_cmd s"
  "total_attempts (send_finalize_pairing_handler e d s) = total_attempts s + 1"
  by (simp_all add: send_finalize_pairing_handler_def Let_def send_data_fields)


lemma send_provide_fields:
  "pairing_device (send_provide_register_structure_handler e d s) = pairing_device s"
  "found_devices (send_provide_register_structure_handler e d s) = found_devices s"
  "pairing_enabled (send_provide_register_structure_handler e d s) = pairing_enabled s"
  "broadcasting_search_finished (send_provide_register_structure_handler e d s) = broadcasting_search_finished s"
  "client_id (send_provide_register_structure_handler e d s) = client_id s"
  "pairing_cmd (send_provide_register_structure_handler e d s) = pairing_cmd s"
  by (simp_all add: send_provide_register_structure_handler_def Let_def send_data_fields
        split: option.splits)


text \<open>One send attempt at most: either nothing was sent and the counter stands, or the
  counter went up by one and one call per target was made.\<close>

lemma send_current_command_fields:
  "pairing_device (send_current_command e d s) = pairing_device s"
  "found_devices (send_current_command e d s) = found_devices s"
  "pairing_enabled (send_current_command e d s) = pairing_enabled s"
  "broadcasting_search_finished (send_current_command e d s) = broadcasting_search_finished s"
  "client_id (send_current_command e d s) = client_id s"
  by (cases "pairing_cmd s";
      simp add: send_current_command_def Let_def broadcast_write_address_fields
        send_provide_fields send_finalize_fields)+


lemma move_to_next_register_fields:
  "pairing_device (snd (move_to_next_register_for_init s)) = pairing_device s"
  "found_devices (snd (move_to_next_register_for_init s)) = found_devices s"
  "pairing_enabled (snd (move_to_next_register_for_init s)) = pairing_enabled s"
  "broadcasting_search_finished (snd (move_to_next_register_for_init s)) = broadcasting_search_finished s"
  "client_id (snd (move_to_next_register_for_init s)) = client_id s"
  "total_attempts (snd (move_to_next_register_for_init s)) = total_attempts s"
  "client_calls (snd (move_to_next_register_for_init s)) = client_calls s"
  by (simp_all add: move_to_next_register_for_init_def Let_def split: option.splits)

lemma move_to_next_cmd_fields:
  "pairing_device (move_to_next_cmd s) = pairing_device s"
  "found_devices (move_to_next_cmd s) = found_devices s"
  "pairing_enabled (move_to_next_cmd s) = pairing_enabled s"
  "broadcasting_search_finished (move_to_next_cmd s) = broadcasting_search_finished s"
  "client_id (move_to_next_cmd s) = client_id s"
  "total_attempts (move_to_next_cmd s) = total_attempts s"
  "client_calls (move_to_next_cmd s) = client_calls s"
  by (simp_all add: move_to_next_cmd_def move_to_next_register_fields)


lemma discover_device_Nil_fields:
  assumes "found_devices s = []"
  shows "\<not> pairing_enabled (discover_device e s)" "pairing_device (discover_device e s) = None"
  by (simp_all add: discover_device_Nil [OF assms] disable_def reset_pointers_def
        reset_device_pointers_def)

lemma discover_device_take_fields:
  assumes "found_devices s = d # rest" "address_for e d = Some a"
  shows "pairing_enabled (discover_device e s) = pairing_enabled s"
    and "pairing_device (discover_device e s) = Some (d\<lparr>dev_address := a\<rparr>)"
    and "found_devices (discover_device e s) = rest"
    and "broadcasting_search_finished (discover_device e s) = broadcasting_search_finished s"
    and "client_calls (discover_device e s) = client_calls s"
proof -
  from discover_device_take [OF assms] obtain regs calls where
    eq: "discover_device e s =
             (reset_device_pointers s)\<lparr>pairing_device := Some (d\<lparr>dev_address := a\<rparr>),
                found_devices := rest, pairing_device_registers := regs,
                set_state_calls := calls\<rparr>" by blast
  show "pairing_enabled (discover_device e s) = pairing_enabled s"
    and "pairing_device (discover_device e s) = Some (d\<lparr>dev_address := a\<rparr>)"
    and "found_devices (discover_device e s) = rest"
    and "broadcasting_search_finished (discover_device e s) = broadcasting_search_finished s"
    and "client_calls (discover_device e s) = client_calls s"
    unfolding eq by (simp_all add: reset_device_pointers_def)
qed

lemma loop_enrollment_drop:
  assumes "pairing_enabled s" "total_attempts s < MAX_TOTAL_TRANSMIT_ATTEMPTS"
    "broadcasting_search_finished s" "pairing_device s = Some d"
    "MAX_TRANSMIT_ATTEMPTS \<le> attempts s \<or>
     MAX_PAIRING_DELAY \<le> now_check e - last_request_send_timestamp s"
  shows "loop e s = discover_device e s"
  using assms by (simp add: loop_def Let_def)

lemma loop_enrollment_keep:
  assumes "pairing_enabled s" "total_attempts s < MAX_TOTAL_TRANSMIT_ATTEMPTS"
    "broadcasting_search_finished s" "pairing_device s = Some d"
    "\<not> (MAX_TRANSMIT_ATTEMPTS \<le> attempts s \<or>
        MAX_PAIRING_DELAY \<le> now_check e - last_request_send_timestamp s)"
  shows "loop e s = (if waiting_for_packet s \<noteq> None then s
                     else send_current_command e d (move_to_next_cmd s))"
  using assms by (simp add: loop_def Let_def)

lemma example_enrolling_fields:
  "pairing_enabled example_enrolling"
  "total_attempts example_enrolling < MAX_TOTAL_TRANSMIT_ATTEMPTS"
  "broadcasting_search_finished example_enrolling"
  "pairing_device example_enrolling = Some (example_device 1 ''AAA'')"
  "found_devices example_enrolling = [example_device 2 ''BBB'']"
  "attempts example_enrolling = 1"
  "last_request_send_timestamp example_enrolling = 10"
  by (simp_all add: example_enrolling_def initial_pairing_def MAX_TOTAL_TRANSMIT_ATTEMPTS_def)

lemma loop_capped_example:
  "loop (example_env 12) (example_enrolling\<lparr>total_attempts := 100\<rparr>) =
     initial_pairing
       \<lparr>last_request_send_timestamp := 12,
        waiting_for_packet := Some Packet_DISCOVER,
        attempts := 1,
        total_attempts := 1,
        client_calls := [BroadcastPacket [0x01, 0x04, 0x01] 2.0 None]\<rparr>"
  by (simp add: loop_def Let_def example_enrolling_def initial_pairing_def disable_def
        reset_pointers_def reset_device_pointers_def MAX_TOTAL_TRANSMIT_ATTEMPTS_def
        MAX_SEARCHING_ATTEMPTS_def broadcast_search_devices_handler_def mark_waiting_def
        call_clients_def example_env_def ProtocolVersion_V1_def Packet_DISCOVER_def
        BROADCAST_WAITING_DELAY_def)

subsection \<open>The fields \<^verbatim>\<open>discover_device\<close> leaves alone\<close>


subsection \<open>The branches of \<^verbatim>\<open>loop\<close>\<close>








subsection \<open>The caller's list object across the calls\<close>









subsection \<open>How one event changes the attempts counter\<close>





subsection \<open>The example runs, evaluated\<close>




subsection \<open>The search phase\<close>












section \<open>Properties of the connector\<close>











section \<open>The claims about the frame layer\<close>

text \<open>
  Claim C3 (inbound frames never raise), evaluated where the code departs from it: a one-byte
  frame passes the version check and then raises IndexError at \<^verbatim>\<open>raw_payload[1]\<close>; an empty
  frame raises IndexError at \<^verbatim>\<open>raw_payload[0]\<close>; and a well-formed frame whose header lacks
  \<^verbatim>\<open>sender_id\<close> raises ValueError in \<^verbatim>\<open>int(str(None))\<close>, which the \<^verbatim>\<open>except KeyError\<close> clause
  does not catch.
\<close>

theorem receive_raises_examples:
  "receive Packet_values_spec 1 [0x01] 1 [''sender_id'' \<mapsto> 5] = Inl IndexError \<and>
   receive Packet_values_spec 1 [] 0 [''sender_id'' \<mapsto> 5] = Inl IndexError \<and>
   receive Packet_values_spec 1 [0x01, 0x04, 0x01, 0xF9, 0xEA, 0x24] 6 Map.empty = Inl ValueError"
  using receive_short [of "[''sender_id'' \<mapsto> 5]" 5 Packet_values_spec 1]
  by (simp add: receive_no_sender ProtocolVersion_V1_def)

text \<open>
  Claim C6 (the CRC). For every byte sequence \<^verbatim>\<open>__crc16\<close> equals the reference CRC-16: seed
  \<^verbatim>\<open>0xFFFF\<close>, each byte processed bit by bit from the least significant bit with the reflected
  polynomial \<^verbatim>\<open>0x8408\<close>, then the complement of the 16-bit register, then its two bytes swapped.
  The two CRC bytes that \<^verbatim>\<open>send_packet\<close> appends are computed over exactly the payload bytes the
  caller passed (neither the CRC bytes nor the terminator are covered).
\<close>

theorem crc16_refines_reference:
  "crc16 data = uint (ref_crc16 data) \<and>
   (to_bytes payload = Inr covered \<longrightarrow>
      payload_after (send_packet Packet_has_value lk address payload waiting_time) =
        payload @ [drop_bit 8 (uint (ref_crc16 covered)), uint (ref_crc16 covered) AND 0xFF, TERMINATOR])"
  using send_packet_bytes(1) [of payload covered] by (simp add: crc16_eq_ref)

theorem crc16_refines_reference_witness:
  "crc16 [0x01, 0x04, 0x01] = uint (ref_crc16 [0x01, 0x04, 0x01]) \<and>
   uint (ref_crc16 [0x01, 0x04, 0x01]) = 0xF9EA \<and>
   to_bytes [0x01, 0x04, 0x01] = Inr [0x01, 0x04, 0x01] \<and>
   payload_after (send_packet Packet_values_spec example_link 7 [0x01, 0x04, 0x01] 0) =
     [0x01, 0x04, 0x01, 0xF9, 0xEA, 0x24]"
proof -
  have b: "to_bytes [0x01, 0x04, 0x01] = Inr [0x01, 0x04, 0x01]"
    by (simp add: to_bytes_def)
  have r: "uint (ref_crc16 [0x01, 0x04, 0x01]) = 0xF9EA"
    using crc16_refines_reference [of "[0x01, 0x04, 0x01]"] crc16_S1 by simp
  have "(0xF9EA::int) AND 0xFF = 0xEA" "drop_bit 8 (0xF9EA::int) = 0xF9"
    by (simp_all add: drop_bit_eq_div mask8 take_bit_eq_mod flip: take_bit_eq_mask)
  then show ?thesis
    using crc16_refines_reference [of "[0x01, 0x04, 0x01]" "[0x01, 0x04, 0x01]" "[0x01, 0x04, 0x01]" Packet_values_spec example_link 7 0] b r
    by (simp add: TERMINATOR_def)
qed

text \<open>
  Claim C1 (frame round trip). Let \<open>B\<close> be a payload list of octets with at least two
  elements whose element 0 is a recognised protocol version and whose element 1 is a recognised
  packet kind. The frame that \<^verbatim>\<open>send_packet\<close> hands to the link is \<open>B\<close> followed by the CRC high
  byte, the CRC low byte and the terminator \<^verbatim>\<open>0x24\<close>. What \<^verbatim>\<open>receive\<close> does with that frame and
  its length depends on the header alone: when the header names the sender, all four checks
  pass and exactly \<open>B\<close> (with its length) is forwarded to the receiver; when the header has no
  \<^verbatim>\<open>sender_id\<close>, \<^verbatim>\<open>receive\<close> raises ValueError before it looks at the frame, although the comment
  of its \<^verbatim>\<open>except KeyError\<close> clause says that a missing sender address is passed over. There the
  code departs from the claim.
\<close>

theorem frame_round_trip_by_header:
  assumes "to_bytes B = Inr data"
    and "2 \<le> length B"
    and "ProtocolVersion_has_value (B ! 0)"
    and "Packet_has_value (B ! 1)"
  shows "\<exists>frame.
           handed_to_link (send_packet Packet_has_value lk address B waiting_time) = [(address, frame)] \<and>
           map uint frame = B @ [drop_bit 8 (crc16 data), crc16 data AND 0xFF, TERMINATOR] \<and>
           receive Packet_has_value version frame (int (length frame)) packet_info =
             (case packet_info ''sender_id'' of
                None \<Rightarrow> Inl ValueError
              | Some sender \<Rightarrow> Inr (Forwarded B (int (length B)) sender version))"
proof -
  let ?frame = "data @ [word_of_int (drop_bit 8 (crc16 data)), word_of_int (crc16 data AND 0xFF), 0x24]"
  have h: "handed_to_link (send_packet Packet_has_value lk address B waiting_time) = [(address, ?frame)]"
    by (rule send_packet_bytes(2) [OF assms(1)])
  have m: "map uint ?frame = B @ [drop_bit 8 (crc16 data), crc16 data AND 0xFF, TERMINATOR]"
    using crc_hi_range [of data] crc_lo_range [of data] to_bytes_Inr [OF assms(1)]
    by (simp add: uint_byte TERMINATOR_def)
  have r: "receive Packet_has_value version ?frame (int (length ?frame)) packet_info =
             (case packet_info ''sender_id'' of
                None \<Rightarrow> Inl ValueError
              | Some sender \<Rightarrow> Inr (Forwarded B (int (length B)) sender version))"
  proof (cases "packet_info ''sender_id''")
    case None
    then show ?thesis by (simp add: receive_no_sender)
  next
    case (Some sender)
    have "receive Packet_has_value version ?frame (int (length ?frame)) packet_info =
             Inr (Forwarded B (int (length B)) sender version)"
      by (rule receive_of_frame
          [where Packet_has_value = Packet_has_value and packet_info = packet_info, OF assms Some])
    then show ?thesis by (simp add: Some)
  qed
  from h m r show ?thesis by blast
qed

theorem frame_round_trip_by_header_witness:
  "to_bytes [0x01, 0x04, 0x01] = Inr [0x01, 0x04, 0x01] \<and>
   2 \<le> length [0x01, 0x04, 0x01 :: int] \<and>
   ProtocolVersion_has_value ([0x01, 0x04, 0x01] ! 0) \<and>
   Packet_values_spec ([0x01, 0x04, 0x01] ! 1) \<and>
   handed_to_link (send_packet Packet_values_spec example_link 7 [0x01, 0x04, 0x01] 0) =
     [(7, [0x01, 0x04, 0x01, 0xF9, 0xEA, 0x24])] \<and>
   receive Packet_values_spec 1 [0x01, 0x04, 0x01, 0xF9, 0xEA, 0x24] 6 Map.empty =
     Inl ValueError \<and>
   receive Packet_values_spec 1 [0x01, 0x04, 0x01, 0xF9, 0xEA, 0x24] 6 [''sender_id'' \<mapsto> 5] =
     Inr (Forwarded [0x01, 0x04, 0x01] 3 5 1)"
proof -
  have v: "ProtocolVersion_has_value ([0x01, 0x04, 0x01] ! 0)"
    by (simp add: ProtocolVersion_has_value_def ProtocolVersion_V1_def)
  have k: "Packet_values_spec ([0x01, 0x04, 0x01] ! 1)"
    by (simp add: Packet_values_spec_def)
  have l: "2 \<le> length [0x01, 0x04, 0x01 :: int]" by simp
  note t = frame_round_trip_by_header
      [where Packet_has_value = Packet_values_spec and lk = example_link and address = 7
         and waiting_time = 0 and version = 1, OF to_bytes_S1 l v k]
  obtain frame where
    f: "handed_to_link (send_packet Packet_values_spec example_link 7 [0x01, 0x04, 0x01] 0) = [(7, frame)]"
       "map uint frame = [0x01, 0x04, 0x01] @ [drop_bit 8 (crc16 [0x01, 0x04, 0x01]), crc16 [0x01, 0x04, 0x01] AND 0xFF, TERMINATOR]"
       "receive Packet_values_spec 1 frame (int (length frame)) Map.empty =
          (case (Map.empty :: string \<rightharpoonup> int) ''sender_id'' of
             None \<Rightarrow> Inl ValueError
           | Some sender \<Rightarrow> Inr (Forwarded [0x01, 0x04, 0x01] (int (length [0x01, 0x04, 0x01 :: int])) sender 1))"
    using t [where packet_info = Map.empty] by blast
  obtain frame' where
    g: "handed_to_link (send_packet Packet_values_spec example_link 7 [0x01, 0x04, 0x01] 0) = [(7, frame')]"
       "receive Packet_values_spec 1 frame' (int (length frame')) [''sender_id'' \<mapsto> 5] =
          (case [''sender_id'' \<mapsto> 5::int] ''sender_id'' of
             None \<Rightarrow> Inl ValueError
           | Some sender \<Rightarrow> Inr (Forwarded [0x01, 0x04, 0x01] (int (length [0x01, 0x04, 0x01 :: int])) sender 1))"
    using t [where packet_info = "[''sender_id'' \<mapsto> 5]"] by blast
  have same: "frame' = frame" using f(1) g(1) by simp
  have "map uint frame = [0x01, 0x04, 0x01, 0xF9, 0xEA, 0x24]"
    unfolding f(2) crc_S1_bytes by (simp add: TERMINATOR_def)
  then have "to_bytes (map uint frame) = Inr [0x01, 0x04, 0x01, 0xF9, 0xEA, 0x24]"
    by (simp add: to_bytes_def)
  then have e: "frame = [0x01, 0x04, 0x01, 0xF9, 0xEA, 0x24]"
    unfolding to_bytes_map_uint by simp
  show ?thesis
    using f(1,3) g(2) v k to_bytes_S1 unfolding same e by simp
qed


section \<open>The claims about pairing\<close>

text \<open>
  Claim C4 (order of register enumeration), as the code has it. The registers are taken in the
  order in which the set \<^verbatim>\<open>pairing_device_registers\<close> is iterated.
  \<^verbatim>\<open>move_to_next_register_for_init\<close> returns \<^verbatim>\<open>True\<close> exactly when some register has data type
  UNKNOWN, and then it selects an UNKNOWN register: the first INPUT-or-OUTPUT one of the
  iteration order if there is one (the two kinds are not ordered among themselves); an
  ATTRIBUTE register only when no UNKNOWN INPUT or OUTPUT register is left, and then the first
  such attribute; a SETTING register only when every UNKNOWN register is a setting, and then
  the first such setting. Nothing orders the registers of a kind by address.
\<close>

theorem move_to_next_register_order:
  fixes s :: ApiV1Pairing
  defines "regs \<equiv> pairing_device_registers s"
    and "s' \<equiv> snd (move_to_next_register_for_init s)"
  shows
    "(fst (move_to_next_register_for_init s) \<longleftrightarrow> (\<exists>r \<in> set regs. reg_data_type r = UNKNOWN)) \<and>
     (\<not> fst (move_to_next_register_for_init s) \<longrightarrow>
        processing_register_type s' = None \<and> processing_register_address s' = None) \<and>
     (fst (move_to_next_register_for_init s) \<longrightarrow>
        (\<exists>i < length regs.
           reg_data_type (regs ! i) = UNKNOWN \<and>
           processing_register_type s' = Some (reg_type (regs ! i)) \<and>
           processing_register_address s' = Some (reg_address (regs ! i)) \<and>
           (reg_type (regs ! i) \<in> {INPUT, OUTPUT} \<longrightarrow>
              (\<forall>j < i. \<not> (reg_data_type (regs ! j) = UNKNOWN \<and> reg_type (regs ! j) \<in> {INPUT, OUTPUT}))) \<and>
           (reg_type (regs ! i) = ATTRIBUTE \<longrightarrow>
              (\<forall>r \<in> set regs. reg_data_type r = UNKNOWN \<longrightarrow> reg_type r \<notin> {INPUT, OUTPUT}) \<and>
              (\<forall>j < i. \<not> (reg_data_type (regs ! j) = UNKNOWN \<and> reg_type (regs ! j) = ATTRIBUTE))) \<and>
           (reg_type (regs ! i) = SETTING \<longrightarrow>
              (\<forall>r \<in> set regs. reg_data_type r = UNKNOWN \<longrightarrow> reg_type r = SETTING) \<and>
              (\<forall>j < i. \<not> (reg_data_type (regs ! j) = UNKNOWN \<and> reg_type (regs ! j) = SETTING)))))"
proof -
  let ?io = "\<lambda>r. reg_data_type r = UNKNOWN \<and> reg_type r \<in> {INPUT, OUTPUT}"
  let ?at = "\<lambda>r. reg_data_type r = UNKNOWN \<and> reg_type r = ATTRIBUTE"
  let ?se = "\<lambda>r. reg_data_type r = UNKNOWN \<and> reg_type r = SETTING"
  have h: "has_registers_to_init (s\<lparr>processing_register_type := None, processing_register_address := None\<rparr>)
           \<longleftrightarrow> (\<exists>r \<in> set regs. reg_data_type r = UNKNOWN)"
    by (simp add: has_registers_to_init_def regs_def list_ex_iff)
  show ?thesis
  proof (cases "\<exists>r \<in> set regs. reg_data_type r = UNKNOWN")
    case False
    then show ?thesis
      using h by (simp add: move_to_next_register_for_init_def s'_def Let_def)
  next
    case True
    show ?thesis
    proof (cases "find ?io regs")
      case (Some r)
      from find_Some_first [OF Some] obtain i where
        i: "i < length regs" "regs ! i = r" "?io r" "\<forall>j < i. \<not> ?io (regs ! j)" by blast
      have m: "move_to_next_register_for_init s =
                 (True, s\<lparr>processing_register_type := None, processing_register_address := None,
                          processing_register_type := Some (reg_type r),
                          processing_register_address := Some (reg_address r),
                          waiting_for_packet := None, attempts := 0\<rparr>)"
        using h True Some by (simp add: move_to_next_register_for_init_def Let_def regs_def)
      show ?thesis
        unfolding s'_def m using True i by (intro conjI impI) (auto intro!: exI [of _ i])
    next
      case None
      then have no_io: "\<forall>r \<in> set regs. \<not> ?io r" by (simp add: find_None_iff)
      show ?thesis
      proof (cases "find ?at regs")
        case (Some r)
        from find_Some_first [OF Some] obtain i where
          i: "i < length regs" "regs ! i = r" "?at r" "\<forall>j < i. \<not> ?at (regs ! j)" by blast
        have m: "move_to_next_register_for_init s =
                 (True, s\<lparr>processing_register_type := None, processing_register_address := None,
                          processing_register_type := Some ATTRIBUTE,
                          processing_register_address := Some (reg_address r),
                          waiting_for_packet := None, attempts := 0\<rparr>)"
          using h True None Some by (simp add: move_to_next_register_for_init_def Let_def regs_def)
        show ?thesis
          unfolding s'_def m using True i no_io by (intro conjI impI) (auto intro!: exI [of _ i])
      next
        case None2: None
        then have no_at: "\<forall>r \<in> set regs. \<not> ?at r" by (simp add: find_None_iff)
        from True obtain u where u: "u \<in> set regs" "reg_data_type u = UNKNOWN" by blast
        have "reg_type u = SETTING"
          using RegisterType_cases [of "reg_type u"] no_io no_at u by auto
        then have "\<exists>r \<in> set regs. ?se r" using u by blast
        then obtain r where Some: "find ?se regs = Some r"
          by (cases "find ?se regs") (auto simp: find_None_iff)
        from find_Some_first [OF Some] obtain i where
          i: "i < length regs" "regs ! i = r" "?se r" "\<forall>j < i. \<not> ?se (regs ! j)" by blast
        have all_se: "\<forall>r \<in> set regs. reg_data_type r = UNKNOWN \<longrightarrow> reg_type r = SETTING"
        proof (intro ballI impI)
          fix x assume "x \<in> set regs" "reg_data_type x = UNKNOWN"
          then show "reg_type x = SETTING"
            using RegisterType_cases [of "reg_type x"] no_io no_at by auto
        qed
        have m: "move_to_next_register_for_init s =
                 (True, s\<lparr>processing_register_type := None, processing_register_address := None,
                          processing_register_type := Some SETTING,
                          processing_register_address := Some (reg_address r),
                          waiting_for_packet := None, attempts := 0\<rparr>)"
          using h True None None2 Some by (simp add: move_to_next_register_for_init_def Let_def regs_def)
        show ?thesis
          unfolding s'_def m using True i all_se by (intro conjI impI) (auto intro!: exI [of _ i])
      qed
    qed
  qed
qed

theorem move_to_next_register_order_witness:
  "fst (move_to_next_register_for_init
          (initial_pairing\<lparr>pairing_device_registers :=
             [example_register SETTING 1 0 UNKNOWN, example_register ATTRIBUTE 2 1 UNKNOWN,
              example_register ATTRIBUTE 3 0 UNKNOWN, example_register INPUT 4 0 BOOL]\<rparr>)) \<and>
   processing_register_type (snd (move_to_next_register_for_init
          (initial_pairing\<lparr>pairing_device_registers :=
             [example_register SETTING 1 0 UNKNOWN, example_register ATTRIBUTE 2 1 UNKNOWN,
              example_register ATTRIBUTE 3 0 UNKNOWN, example_register INPUT 4 0 BOOL]\<rparr>))) = Some ATTRIBUTE \<and>
   processing_register_address (snd (move_to_next_register_for_init
          (initial_pairing\<lparr>pairing_device_registers :=
             [example_register SETTING 1 0 UNKNOWN, example_register ATTRIBUTE 2 1 UNKNOWN,
              example_register ATTRIBUTE 3 0 UNKNOWN, example_register INPUT 4 0 BOOL]\<rparr>))) = Some 1"
proof -
  let ?s = "initial_pairing\<lparr>pairing_device_registers :=
             [example_register SETTING 1 0 UNKNOWN, example_register ATTRIBUTE 2 1 UNKNOWN,
              example_register ATTRIBUTE 3 0 UNKNOWN, example_register INPUT 4 0 BOOL]\<rparr>"
  have f: "fst (move_to_next_register_for_init ?s)"
    using move_to_next_register_order [of ?s] by (simp add: example_register_def)
  have t: "processing_register_type (snd (move_to_next_register_for_init ?s)) = Some ATTRIBUTE"
    by (simp add: move_to_next_register_for_init_def has_registers_to_init_def example_register_def Let_def)
  have a: "processing_register_address (snd (move_to_next_register_for_init ?s)) = Some 1"
    by (simp add: move_to_next_register_for_init_def has_registers_to_init_def example_register_def Let_def)
  from f t a show ?thesis by blast
qed

theorem move_to_next_register_order_counterexample:
  "processing_register_type (snd (move_to_next_register_for_init
      (initial_pairing\<lparr>pairing_device_registers :=
         [example_register OUTPUT 1 1 UNKNOWN, example_register INPUT 2 1 UNKNOWN,
          example_register INPUT 3 0 UNKNOWN]\<rparr>))) = Some OUTPUT \<and>
   processing_register_address (snd (move_to_next_register_for_init
      (initial_pairing\<lparr>pairing_device_registers :=
         [example_register OUTPUT 1 1 UNKNOWN, example_register INPUT 2 1 UNKNOWN,
          example_register INPUT 3 0 UNKNOWN]\<rparr>))) = Some 1 \<and>
   processing_register_type (snd (move_to_next_register_for_init
      (initial_pairing\<lparr>pairing_device_registers :=
         [example_register INPUT 2 1 UNKNOWN, example_register INPUT 3 0 UNKNOWN]\<rparr>))) = Some INPUT \<and>
   processing_register_address (snd (move_to_next_register_for_init
      (initial_pairing\<lparr>pairing_device_registers :=
         [example_register INPUT 2 1 UNKNOWN, example_register INPUT 3 0 UNKNOWN]\<rparr>))) = Some 1"
  by (simp add: move_to_next_register_for_init_def has_registers_to_init_def example_register_def Let_def)

text \<open>
  Claim C7 (retry or drop), as the code has it. Take a \<^verbatim>\<open>loop()\<close> tick during the enrollment of a
  device \<open>d\<close> (pairing enabled, search finished) that starts with \<^verbatim>\<open>total_attempts\<close> below
  \<^verbatim>\<open>MAX_TOTAL_TRANSMIT_ATTEMPTS\<close>. If \<^verbatim>\<open>attempts\<close> has reached \<^verbatim>\<open>MAX_TRANSMIT_ATTEMPTS = 5\<close> or at
  least \<^verbatim>\<open>MAX_PAIRING_DELAY = 5.0\<close> seconds have passed since \<^verbatim>\<open>last_request_send_timestamp\<close>, the
  tick is a call of \<^verbatim>\<open>discover_device()\<close>: with no found device left pairing is disabled and no
  device is being paired; otherwise the next found device for which an address is available
  becomes the pairing device (a device without one is skipped). In every other case the tick
  keeps the device \<open>d\<close>, the found devices, and pairing enabled.
\<close>

theorem enrollment_retry_or_drop:
  assumes "pairing_enabled s"
    and "total_attempts s < MAX_TOTAL_TRANSMIT_ATTEMPTS"
    and "broadcasting_search_finished s"
    and "pairing_device s = Some d"
  shows
    "(MAX_TRANSMIT_ATTEMPTS \<le> attempts s \<or>
      MAX_PAIRING_DELAY \<le> now_check e - last_request_send_timestamp s \<longrightarrow>
        loop e s = discover_device e s \<and>
        (found_devices s = [] \<longrightarrow>
           \<not> pairing_enabled (loop e s) \<and> pairing_device (loop e s) = None) \<and>
        (\<forall>next_device rest a.
           found_devices s = next_device # rest \<and> address_for e next_device = Some a \<longrightarrow>
             pairing_enabled (loop e s) \<and>
             pairing_device (loop e s) = Some (next_device\<lparr>dev_address := a\<rparr>) \<and>
             found_devices (loop e s) = rest) \<and>
        (\<forall>next_device rest.
           found_devices s = next_device # rest \<and> address_for e next_device = None \<longrightarrow>
             loop e s = discover_device e (s\<lparr>found_devices := rest\<rparr>))) \<and>
     (\<not> (MAX_TRANSMIT_ATTEMPTS \<le> attempts s \<or>
         MAX_PAIRING_DELAY \<le> now_check e - last_request_send_timestamp s) \<longrightarrow>
        pairing_enabled (loop e s) \<and>
        pairing_device (loop e s) = Some d \<and>
        found_devices (loop e s) = found_devices s)"
proof (intro conjI impI)
  assume c: "MAX_TRANSMIT_ATTEMPTS \<le> attempts s \<or>
             MAX_PAIRING_DELAY \<le> now_check e - last_request_send_timestamp s"
  note l = loop_enrollment_drop [OF assms c]
  show "loop e s = discover_device e s" by (rule l)
  show "\<not> pairing_enabled (loop e s)" if "found_devices s = []"
    unfolding l by (rule discover_device_Nil_fields(1) [OF that])
  show "pairing_device (loop e s) = None" if "found_devices s = []"
    unfolding l by (rule discover_device_Nil_fields(2) [OF that])
  show "\<forall>next_device rest a.
           found_devices s = next_device # rest \<and> address_for e next_device = Some a \<longrightarrow>
             pairing_enabled (loop e s) \<and>
             pairing_device (loop e s) = Some (next_device\<lparr>dev_address := a\<rparr>) \<and>
             found_devices (loop e s) = rest"
    unfolding l using assms(1) by (auto simp: discover_device_take_fields)
  show "\<forall>next_device rest.
           found_devices s = next_device # rest \<and> address_for e next_device = None \<longrightarrow>
             loop e s = discover_device e (s\<lparr>found_devices := rest\<rparr>)"
    unfolding l by (auto simp: discover_device_skip)
next
  assume c: "\<not> (MAX_TRANSMIT_ATTEMPTS \<le> attempts s \<or>
                MAX_PAIRING_DELAY \<le> now_check e - last_request_send_timestamp s)"
  note l = loop_enrollment_keep [OF assms c]
  show "pairing_enabled (loop e s)"
    unfolding l using assms(1) by (simp add: send_current_command_fields move_to_next_cmd_fields)
  show "pairing_device (loop e s) = Some d"
    unfolding l using assms(4) by (simp add: send_current_command_fields move_to_next_cmd_fields)
  show "found_devices (loop e s) = found_devices s"
    unfolding l by (simp add: send_current_command_fields move_to_next_cmd_fields)
qed

theorem enrollment_retry_or_drop_witness:
  "pairing_enabled example_enrolling \<and>
   total_attempts example_enrolling < MAX_TOTAL_TRANSMIT_ATTEMPTS \<and>
   broadcasting_search_finished example_enrolling \<and>
   pairing_device example_enrolling = Some (example_device 1 ''AAA'') \<and>
   MAX_PAIRING_DELAY \<le> now_check (example_env 15) - last_request_send_timestamp example_enrolling \<and>
   pairing_device (loop (example_env 15) example_enrolling) =
     Some ((example_device 2 ''BBB'')\<lparr>dev_address := 3\<rparr>) \<and>
   found_devices (loop (example_env 15) example_enrolling) = [] \<and>
   pairing_enabled (loop (example_env 15) example_enrolling) \<and>
   pairing_device (loop (example_env 12) example_enrolling) = Some (example_device 1 ''AAA'') \<and>
   found_devices (loop (example_env 12) example_enrolling) = [example_device 2 ''BBB'']"
proof -
  note t = enrollment_retry_or_drop [OF example_enrolling_fields(1,2,3,4)]
  have late: "MAX_PAIRING_DELAY \<le> now_check (example_env 15) - last_request_send_timestamp example_enrolling"
    by (simp add: example_enrolling_fields example_env_def MAX_PAIRING_DELAY_def)
  have early: "\<not> (MAX_TRANSMIT_ATTEMPTS \<le> attempts example_enrolling \<or>
        MAX_PAIRING_DELAY \<le> now_check (example_env 12) - last_request_send_timestamp example_enrolling)"
    by (simp add: example_enrolling_fields example_env_def MAX_PAIRING_DELAY_def MAX_TRANSMIT_ATTEMPTS_def)
  have a: "address_for (example_env 15) (example_device 2 ''BBB'') = Some 3"
    by (simp add: address_for_def example_env_def)
  from t [of "example_env 15"] late example_enrolling_fields(5) a
  have r15: "pairing_enabled (loop (example_env 15) example_enrolling) \<and>
             pairing_device (loop (example_env 15) example_enrolling) =
               Some ((example_device 2 ''BBB'')\<lparr>dev_address := 3\<rparr>) \<and>
             found_devices (loop (example_env 15) example_enrolling) = []"
    by blast
  from t [of "example_env 12"] early
  have r12: "pairing_device (loop (example_env 12) example_enrolling) = Some (example_device 1 ''AAA'') \<and>
             found_devices (loop (example_env 12) example_enrolling) = found_devices example_enrolling"
    by blast
  from example_enrolling_fields(1,2,3,4) late r15 r12 show ?thesis
    by (simp add: example_enrolling_fields(5))
qed

text \<open>
  The claim without the bound on \<^verbatim>\<open>total_attempts\<close> fails: in the state below one attempt was made
  two seconds ago, so neither limit of the claim is reached, but \<^verbatim>\<open>total_attempts\<close> is 100; the
  tick disables pairing and discards both the device being paired and the one that waits.
\<close>

theorem enrollment_retry_or_drop_counterexample:
  "pairing_enabled (example_enrolling\<lparr>total_attempts := 100\<rparr>) \<and>
   broadcasting_search_finished (example_enrolling\<lparr>total_attempts := 100\<rparr>) \<and>
   pairing_device (example_enrolling\<lparr>total_attempts := 100\<rparr>) = Some (example_device 1 ''AAA'') \<and>
   found_devices (example_enrolling\<lparr>total_attempts := 100\<rparr>) = [example_device 2 ''BBB''] \<and>
   attempts (example_enrolling\<lparr>total_attempts := 100\<rparr>) < MAX_TRANSMIT_ATTEMPTS \<and>
   now_check (example_env 12) - last_request_send_timestamp (example_enrolling\<lparr>total_attempts := 100\<rparr>)
     < MAX_PAIRING_DELAY \<and>
   pairing_device (loop (example_env 12) (example_enrolling\<lparr>total_attempts := 100\<rparr>)) = None \<and>
   found_devices (loop (example_env 12) (example_enrolling\<lparr>total_attempts := 100\<rparr>)) = [] \<and>
   \<not> pairing_enabled (loop (example_env 12) (example_enrolling\<lparr>total_attempts := 100\<rparr>))"
  unfolding loop_capped_example
  by (simp add: example_enrolling_def initial_pairing_def example_env_def
        MAX_TRANSMIT_ATTEMPTS_def MAX_PAIRING_DELAY_def)
text \<open>
  Claim C5 (the ack-wait), as the code has it. A call of \<^verbatim>\<open>send_packet\<close> raises before it reaches
  its return statements in three cases: \<^verbatim>\<open>bytes(payload)\<close> raises ValueError when the payload is not
  a list of octets, and then nothing is sent; an exception of \<^verbatim>\<open>self.send\<close> is passed on; and
  \<^verbatim>\<open>Packet(payload[1])\<close> raises ValueError when element 1 of the list (after the three appends) is
  not a recognised packet kind. Every other call, whatever status \<^verbatim>\<open>self.send\<close> returned:
  with \<^verbatim>\<open>waiting_time > 0\<close> it returns \<^verbatim>\<open>True\<close> exactly when some poll \<open>n\<close> of \<^verbatim>\<open>self.loop()\<close>
  reports the ACK send status, every clock test up to and including the one before that poll
  found at most \<^verbatim>\<open>waiting_time\<close> seconds elapsed, and no earlier poll raised; it returns \<^verbatim>\<open>False\<close>
  exactly when some clock test finds more than \<^verbatim>\<open>waiting_time\<close> seconds elapsed, every earlier
  test having passed and every earlier poll having returned a status other than ACK; and it
  raises what a poll raises, when the polls before it returned a status other than ACK within
  the budget. With \<^verbatim>\<open>waiting_time\<close> zero (or negative) it returns \<^verbatim>\<open>True\<close>.
\<close>

theorem send_packet_ack_wait_result:
  "(case to_bytes payload of
      Inl e \<Rightarrow>
        returned (send_packet Packet_has_value lk address payload waiting_time) = Some (Inl ValueError) \<and>
        handed_to_link (send_packet Packet_has_value lk address payload waiting_time) = []
    | Inr data \<Rightarrow>
        (case link_send lk address
                (data @ [word_of_int (drop_bit 8 (crc16 data)), word_of_int (crc16 data AND 0xFF), 0x24]) of
           Inl e \<Rightarrow>
             returned (send_packet Packet_has_value lk address payload waiting_time) = Some (Inl e)
         | Inr status \<Rightarrow>
             if \<not> Packet_has_value
                   ((payload @ [drop_bit 8 (crc16 data), crc16 data AND 0xFF, TERMINATOR]) ! 1)
             then returned (send_packet Packet_has_value lk address payload waiting_time) =
                    Some (Inl ValueError)
             else if 0 < waiting_time
             then (returned (send_packet Packet_has_value lk address payload waiting_time) = Some (Inr True)
                   \<longleftrightarrow>
                   (\<exists>n. (\<forall>i\<le>n. link_clock lk (Suc i) - link_clock lk 0 \<le> waiting_time) \<and>
                        (\<forall>i<n. \<not> isl (link_loop lk i)) \<and>
                        (\<exists>r. link_loop lk n = Inr r \<and> snd r = PJON_ACK lk))) \<and>
                  (returned (send_packet Packet_has_value lk address payload waiting_time) = Some (Inr False)
                   \<longleftrightarrow>
                   (\<exists>n. \<not> link_clock lk (Suc n) - link_clock lk 0 \<le> waiting_time \<and>
                        (\<forall>i<n. link_clock lk (Suc i) - link_clock lk 0 \<le> waiting_time \<and>
                               (\<exists>r. link_loop lk i = Inr r \<and> snd r \<noteq> PJON_ACK lk)))) \<and>
                  (\<forall>err.
                     returned (send_packet Packet_has_value lk address payload waiting_time) =
                       Some (Inl err)
                     \<longleftrightarrow>
                     (\<exists>n. (\<forall>i\<le>n. link_clock lk (Suc i) - link_clock lk 0 \<le> waiting_time) \<and>
                          (\<forall>i<n. \<exists>r. link_loop lk i = Inr r \<and> snd r \<noteq> PJON_ACK lk) \<and>
                          link_loop lk n = Inl err))
             else returned (send_packet Packet_has_value lk address payload waiting_time) =
                    Some (Inr True)))"
proof (cases "to_bytes payload")
  case (Inl e)
  then have "e = ValueError" by (simp add: to_bytes_def split: if_splits)
  with Inl show ?thesis by (simp add: send_packet_def)
next
  case (Inr data)
  let ?p = "payload @ [drop_bit 8 (crc16 data), crc16 data AND 0xFF, TERMINATOR]"
  let ?f = "data @ [word_of_int (drop_bit 8 (crc16 data)), word_of_int (crc16 data AND 0xFF), 0x24]"
  have fr: "to_bytes ?p = Inr ?f"
    by (rule to_bytes_append [OF Inr to_bytes_trailer])
  have g: "py_get ?p 1 = Inr (?p ! 1)"
    by (simp add: py_get_def)
  show ?thesis
  proof (cases "link_send lk address ?f")
    case e: (Inl e)
    show ?thesis by (simp add: Inr e send_packet_def Let_def fr)
  next
    case s: (Inr status)
    have r: "returned (send_packet Packet_has_value lk address payload waiting_time) =
       (if \<not> Packet_has_value (?p ! 1) then Some (Inl ValueError)
        else if 0 < waiting_time then ack_wait lk (link_clock lk 0) waiting_time 0
        else Some (Inr True))"
      by (simp add: send_packet_def Inr Let_def fr s g)
    show ?thesis
      unfolding r by (simp add: Inr s ack_wait_True_iff ack_wait_False_iff ack_wait_raise_iff)
  qed
qed

theorem send_packet_ack_wait_result_witness:
  "returned (send_packet Packet_values_spec example_link 0 [0x01, 0x04, 0x01] 3) = Some (Inr True) \<and>
   returned (send_packet Packet_values_spec example_link 0 [0x01, 0x04, 0x01] 2) = Some (Inr False) \<and>
   returned (send_packet Packet_values_spec example_link 0 [0x01, 0x04, 0x01] 0) = Some (Inr True) \<and>
   returned (send_packet Packet_values_spec example_link 0 [0x01, 0xFF, 0x01] 0) = Some (Inl ValueError)"
proof -
  have b: "to_bytes [0x01, 0x04, 0x01] = Inr [0x01, 0x04, 0x01]"
    "to_bytes [0x01, 0xFF, 0x01] = Inr [0x01, 0xFF, 0x01]"
    by (simp_all add: to_bytes_def)
  have k: "Packet_values_spec 0x04" "\<not> Packet_values_spec 0xFF"
    by (simp_all add: Packet_values_spec_def)
  have s: "\<And>frame. link_send example_link 0 frame = Inr 0"
    by (simp add: example_link_def)
  note t = send_packet_ack_wait_result
      [where Packet_has_value = Packet_values_spec and lk = example_link and address = 0]
  have a3: "\<exists>n. (\<forall>i\<le>n. link_clock example_link (Suc i) - link_clock example_link 0 \<le> 3) \<and>
                  (\<forall>i<n. \<not> isl (link_loop example_link i)) \<and>
                  (\<exists>r. link_loop example_link n = Inr r \<and> snd r = PJON_ACK example_link)"
  proof (rule exI [of _ 2], intro conjI allI impI)
    fix i :: nat assume "i \<le> 2"
    then have "real i \<le> 2" by simp
    then show "link_clock example_link (Suc i) - link_clock example_link 0 \<le> 3"
      by (simp add: example_link_def)
  next
    fix i :: nat assume "i < 2"
    show "\<not> isl (link_loop example_link i)" by (simp add: example_link_def)
  next
    show "\<exists>r. link_loop example_link 2 = Inr r \<and> snd r = PJON_ACK example_link"
      by (simp add: example_link_def)
  qed
  have a2: "\<exists>n. \<not> link_clock example_link (Suc n) - link_clock example_link 0 \<le> 2 \<and>
                 (\<forall>i<n. link_clock example_link (Suc i) - link_clock example_link 0 \<le> 2 \<and>
                        (\<exists>r. link_loop example_link i = Inr r \<and> snd r \<noteq> PJON_ACK example_link))"
  proof (rule exI [of _ 2], intro conjI allI impI)
    show "\<not> link_clock example_link (Suc 2) - link_clock example_link 0 \<le> 2"
      by (simp add: example_link_def)
  next
    fix i :: nat assume "i < 2"
    then have "real i \<le> 1" by simp
    then show "link_clock example_link (Suc i) - link_clock example_link 0 \<le> 2"
      by (simp add: example_link_def)
  next
    fix i :: nat assume "i < 2"
    then show "\<exists>r. link_loop example_link i = Inr r \<and> snd r \<noteq> PJON_ACK example_link"
      by (simp add: example_link_def)
  qed
  have r3: "returned (send_packet Packet_values_spec example_link 0 [0x01, 0x04, 0x01] 3) = Some (Inr True)"
    using t [of "[0x01, 0x04, 0x01]" 3] a3 by (simp add: b s k)
  have r2: "returned (send_packet Packet_values_spec example_link 0 [0x01, 0x04, 0x01] 2) = Some (Inr False)"
    using t [of "[0x01, 0x04, 0x01]" 2] a2 by (simp add: b s k)
  have r0: "returned (send_packet Packet_values_spec example_link 0 [0x01, 0x04, 0x01] 0) = Some (Inr True)"
    using t [of "[0x01, 0x04, 0x01]" 0] by (simp add: b s k)
  have rk: "returned (send_packet Packet_values_spec example_link 0 [0x01, 0xFF, 0x01] 0) = Some (Inl ValueError)"
    using t [of "[0x01, 0xFF, 0x01]" 0] by (simp add: b s k)
  from r3 r2 r0 rk show ?thesis by blast
qed

theorem send_packet_ack_wait_result_counterexample:
  "returned (send_packet Packet_values_spec example_link 7 [0x01, 0x04, 300] 0) = Some (Inl ValueError) \<and>
   handed_to_link (send_packet Packet_values_spec example_link 7 [0x01, 0x04, 300] 0) = []"
  by (simp add: send_packet_def to_bytes_def)


section \<open>The claim about the connector\<close>











end
